theory Spec2Isabelle
  imports Complex_Main "HOL-Library.Log_Nat"
begin

section \<open>Python text: characters, whitespace, splitting\<close>

text \<open>
  A Python \<open>str\<close> is modelled as a HOL \<open>string\<close>: a list of characters, each standing
  for the code point of the same number (0 to 255). Code points above 255 are outside
  the model. The character classes below are CPython's for that range.
\<close>

definition is_space :: "char \<Rightarrow> bool" where
  \<comment> \<open>\<open>str.isspace\<close>, the class used by \<open>str.split()\<close>, \<open>str.strip()\<close> and \<open>\s\<close> of \<open>re\<close>.\<close>
  "is_space c = (c = CHR 0x20 \<or> c = CHR 0x09 \<or> c = CHR 0x0A \<or> c = CHR 0x0B \<or> c = CHR 0x0C
      \<or> c = CHR 0x0D \<or> c = CHR 0x1C \<or> c = CHR 0x1D \<or> c = CHR 0x1E \<or> c = CHR 0x1F
      \<or> c = CHR 0x85 \<or> c = CHR 0xA0)"

definition is_c_space :: "char \<Rightarrow> bool" where
  \<comment> \<open>\<open>Py_ISSPACE\<close>: the C-locale class that \<open>float()\<close> strips.\<close>
  "is_c_space c = (c = CHR 0x20 \<or> c = CHR 0x09 \<or> c = CHR 0x0A \<or> c = CHR 0x0B \<or> c = CHR 0x0C
      \<or> c = CHR 0x0D)"

definition is_linebreak :: "char \<Rightarrow> bool" where
  \<comment> \<open>The single-character line boundaries of \<open>str.splitlines()\<close>; \<open>\r\n\<close> is handled there.\<close>
  "is_linebreak c = (c = CHR 0x0A \<or> c = CHR 0x0D \<or> c = CHR 0x0B \<or> c = CHR 0x0C
      \<or> c = CHR 0x1C \<or> c = CHR 0x1D \<or> c = CHR 0x1E \<or> c = CHR 0x85)"

definition is_digit :: "char \<Rightarrow> bool" where
  \<comment> \<open>\<open>\d\<close> of \<open>re\<close> and the digits of \<open>float()\<close>: below 256 only \<open>0\<close> to \<open>9\<close> are decimal digits.\<close>
  "is_digit c = (c = CHR ''0'' \<or> c = CHR ''1'' \<or> c = CHR ''2'' \<or> c = CHR ''3'' \<or> c = CHR ''4''
      \<or> c = CHR ''5'' \<or> c = CHR ''6'' \<or> c = CHR ''7'' \<or> c = CHR ''8'' \<or> c = CHR ''9'')"

definition digit_val :: "char \<Rightarrow> nat" where
  "digit_val c = of_char c - 48"

definition digits_val :: "string \<Rightarrow> nat" where
  "digits_val ds = foldl (\<lambda>a c. 10 * a + digit_val c) 0 ds"

definition is_ascii :: "char \<Rightarrow> bool" where
  "is_ascii c = ((of_char c :: nat) < 128)"

definition to_lower :: "char \<Rightarrow> char" where
  "to_lower c = (let n = (of_char c :: nat) in if 65 \<le> n \<and> n \<le> 90 then char_of (n + 32) else c)"

fun split_from :: "string \<Rightarrow> string \<Rightarrow> string list" where
  \<comment> \<open>The scan of \<open>str.split()\<close>; the second argument is the current token, reversed.\<close>
  "split_from [] cur = (if cur = [] then [] else [rev cur])"
| "split_from (c # cs) cur =
     (if is_space c then (if cur = [] then split_from cs [] else rev cur # split_from cs [])
      else split_from cs (c # cur))"

definition split :: "string \<Rightarrow> string list" where
  \<comment> \<open>\<open>s.split()\<close>: the maximal runs of non-whitespace characters.\<close>
  "split s = split_from s []"

fun splitlines_from :: "string \<Rightarrow> string \<Rightarrow> string list" where
  "splitlines_from [] cur = (if cur = [] then [] else [rev cur])"
| "splitlines_from (c # cs) cur =
     (if c = CHR 0x0D then
        (case cs of
           d # ds \<Rightarrow> if d = CHR 0x0A then rev cur # splitlines_from ds []
                     else rev cur # splitlines_from cs []
         | [] \<Rightarrow> rev cur # splitlines_from cs [])
      else if is_linebreak c then rev cur # splitlines_from cs []
      else splitlines_from cs (c # cur))"

definition splitlines :: "string \<Rightarrow> string list" where
  \<comment> \<open>\<open>s.splitlines()\<close>: lines without their boundaries; no empty last line.\<close>
  "splitlines s = splitlines_from s []"

definition strip :: "string \<Rightarrow> string" where
  \<comment> \<open>\<open>s.strip()\<close>.\<close>
  "strip s = rev (dropWhile is_space (rev (dropWhile is_space s)))"

definition startswith :: "string \<Rightarrow> string \<Rightarrow> bool" where
  \<comment> \<open>\<open>s.startswith(p)\<close>.\<close>
  "startswith s p = (take (length p) s = p)"

section \<open>Python values\<close>

text \<open>
  A Python \<open>float\<close> is a binary64 value. \<open>Finite q\<close> stands for the binary64 value
  nearest to the rational \<open>q\<close>, which is \<open>round64 q\<close>: the text of a number is kept as the
  decimal number it spells, and a conversion of a text is one correctly rounded step.
  Arithmetic rounds: its operands are the binary64 values, and its result is rounded
  again. The sign of a zero is not modelled.
\<close>

datatype pyfloat = Finite rat | Infinity bool | NaN

definition round_even :: "rat \<Rightarrow> int" where
  \<comment> \<open>The nearest integer, a tie going to the even one.\<close>
  "round_even x =
     (let f = \<lfloor>x\<rfloor>; r = x - of_int f
      in if r < 1 / 2 then f else if 1 / 2 < r then f + 1 else if even f then f else f + 1)"

definition ilog2 :: "rat \<Rightarrow> int" where
  \<comment> \<open>For a positive \<open>q\<close>, the exponent \<open>e\<close> with \<open>2 ^ e \<le> q < 2 ^ (e + 1)\<close>.\<close>
  "ilog2 q =
     (case quotient_of q of (a, b) \<Rightarrow>
        let d = bitlen a - bitlen b in if q < 2 powi d then d - 1 else d)"

definition round64 :: "rat \<Rightarrow> pyfloat" where
  \<comment> \<open>Round to nearest, ties to even, in binary64: 53 significant bits, the smallest step
      \<open>2 ^ -1074\<close>, and an infinity from \<open>2 ^ 1024\<close> on.\<close>
  "round64 q =
     (if q = 0 then Finite 0
      else
        let u = 2 powi (max (ilog2 \<bar>q\<bar> - 52) (- 1074));
            r = of_int (round_even (\<bar>q\<bar> / u)) * u
        in if 2 powi 1024 \<le> r then Infinity (q < 0)
           else Finite (if q < 0 then - r else r))"

fun float_value :: "pyfloat \<Rightarrow> pyfloat" where
  \<comment> \<open>The binary64 value that a modelled float stands for.\<close>
  "float_value (Finite q) = round64 q"
| "float_value (Infinity neg) = Infinity neg"
| "float_value NaN = NaN"

datatype exn =
    IndexError                \<comment> \<open>list index out of range\<close>
  | ValueError string         \<comment> \<open>\<open>float()\<close> could not convert the given text\<close>
  | AttributeError            \<comment> \<open>\<open>.get\<close> on a value that is not a dict\<close>
  | TypeError                 \<comment> \<open>iteration over a value that is not iterable\<close>
  | OtherError string         \<comment> \<open>any exception of the SSH layer or of \<open>decode()\<close>, with its message\<close>

definition fdiv :: "pyfloat \<Rightarrow> rat \<Rightarrow> pyfloat" where
  \<comment> \<open>\<open>x / d\<close> for a positive constant \<open>d\<close> that binary64 holds exactly (1000.0): the
      quotient of the binary64 value of \<open>x\<close> by \<open>d\<close>, rounded.\<close>
  "fdiv x d =
     (case float_value x of
        Finite v \<Rightarrow> round64 (v / d)
      | Infinity neg \<Rightarrow> Infinity neg
      | NaN \<Rightarrow> NaN)"

subsection \<open>The builtin \<open>float()\<close> on text\<close>

fun take_sign :: "string \<Rightarrow> bool \<times> string" where
  "take_sign [] = (False, [])"
| "take_sign (c # cs) =
     (if c = CHR ''-'' then (True, cs) else if c = CHR ''+'' then (False, cs) else (False, c # cs))"

fun drop_underscores :: "char \<Rightarrow> string \<Rightarrow> string option" where
  \<comment> \<open>An underscore is allowed only between two digits; the first argument is the previous character.\<close>
  "drop_underscores prev [] = (if prev = CHR ''_'' then None else Some [])"
| "drop_underscores prev (c # cs) =
     (if c = CHR ''_'' then (if is_digit prev then drop_underscores c cs else None)
      else if prev = CHR ''_'' \<and> \<not> is_digit c then None
      else map_option (\<lambda>r. c # r) (drop_underscores c cs))"

definition float_text :: "string \<Rightarrow> string" where
  \<comment> \<open>Text with a non-ASCII character has its whitespace above 126 turned into a blank and
      its other characters above 126 into a question mark (which no number contains).\<close>
  "float_text s =
     (if list_all is_ascii s then s
      else map (\<lambda>c. if (of_char c :: nat) < 127 then c
                    else if is_space c then CHR 0x20 else CHR ''?'') s)"

definition exponent_part :: "string \<Rightarrow> (bool \<times> nat) option" where
  \<comment> \<open>What follows \<open>e\<close> or \<open>E\<close>: an optional sign and at least one digit, to the end of the text.\<close>
  "exponent_part s =
     (case take_sign s of (neg, ds) \<Rightarrow>
        if ds \<noteq> [] \<and> list_all is_digit ds then Some (neg, digits_val ds) else None)"

definition scale :: "nat \<Rightarrow> nat \<Rightarrow> bool \<Rightarrow> nat \<Rightarrow> rat" where
  \<comment> \<open>mantissa digits \<open>m\<close> with \<open>k\<close> of them after the point, times ten to the signed exponent.\<close>
  "scale m k neg e =
     (if neg then of_nat m / 10 ^ (k + e)
      else of_nat m * 10 ^ e / 10 ^ k)"

definition number :: "string \<Rightarrow> rat option" where
  \<comment> \<open>An unsigned decimal number: digits with an optional point (at least one digit in
      all), then an optional exponent; the whole text must be used.\<close>
  "number s =
     (let ip = takeWhile is_digit s; r1 = dropWhile is_digit s;
          has_point = (r1 \<noteq> [] \<and> hd r1 = CHR ''.'');
          fp = (if has_point then takeWhile is_digit (tl r1) else []);
          r2 = (if has_point then dropWhile is_digit (tl r1) else r1)
      in if ip = [] \<and> fp = [] then None
         else if r2 = [] then Some (scale (digits_val (ip @ fp)) (length fp) False 0)
         else if hd r2 = CHR ''e'' \<or> hd r2 = CHR ''E'' then
           (case exponent_part (tl r2) of
              None \<Rightarrow> None
            | Some (neg, e) \<Rightarrow> Some (scale (digits_val (ip @ fp)) (length fp) neg e))
         else None)"

definition signed_value :: "string \<Rightarrow> pyfloat option" where
  \<comment> \<open>An optional sign, then a number, \<open>inf\<close>, \<open>infinity\<close> or \<open>nan\<close> (any case).\<close>
  "signed_value s =
     (case take_sign s of (neg, r) \<Rightarrow>
        (case number r of
           Some q \<Rightarrow> Some (Finite (if neg then - q else q))
         | None \<Rightarrow>
             (let w = map to_lower r in
              if w = ''inf'' \<or> w = ''infinity'' then Some (Infinity neg)
              else if w = ''nan'' then Some NaN
              else None)))"

definition py_float :: "string \<Rightarrow> exn + pyfloat" where
  \<comment> \<open>\<open>float(s)\<close> for a str: underscores checked and removed, C whitespace stripped at both
      ends, then the whole rest must be a number. Anything else raises ValueError.\<close>
  "py_float s =
     (case drop_underscores (CHR 0x00) (float_text s) of
        None \<Rightarrow> Inl (ValueError s)
      | Some t \<Rightarrow>
          (case signed_value (rev (dropWhile is_c_space (rev (dropWhile is_c_space t)))) of
             None \<Rightarrow> Inl (ValueError s)
           | Some v \<Rightarrow> Inr v))"

definition py_index :: "'a list \<Rightarrow> nat \<Rightarrow> exn + 'a" where
  \<comment> \<open>\<open>xs[i]\<close> for a constant \<open>i \<ge> 0\<close>.\<close>
  "py_index xs i = (if i < length xs then Inr (xs ! i) else Inl IndexError)"

section \<open>The regular expression of the disk parser\<close>

text \<open>
  \<open>re.search(r"\s+(\d+)%\s+/", df_out)\<close>. The pattern is a sequence of pieces; a piece
  is one character of a class, or a greedy \<open>+\<close> of a class, which may be group 1.
  The matcher backtracks as \<open>re\<close> does: a \<open>+\<close> tries its longest run first, then
  shorter ones down to one character. \<open>search\<close> tries every start from the left.
\<close>

datatype cls = Space | Digit | Lit char

datatype piece = Once cls | Plus cls | Group_Plus cls

fun in_cls :: "cls \<Rightarrow> char \<Rightarrow> bool" where
  "in_cls Space c = is_space c"
| "in_cls Digit c = is_digit c"
| "in_cls (Lit l) c = (c = l)"

definition disk_pattern :: "piece list" where
  "disk_pattern = [Plus Space, Group_Plus Digit, Once (Lit (CHR ''%'')), Plus Space, Once (Lit (CHR ''/''))]"

fun first_some :: "(nat \<Rightarrow> 'a option) \<Rightarrow> nat list \<Rightarrow> 'a option" where
  "first_some f [] = None"
| "first_some f (n # ns) = (case f n of Some r \<Rightarrow> Some r | None \<Rightarrow> first_some f ns)"

definition greedy_lengths :: "cls \<Rightarrow> string \<Rightarrow> nat list" where
  \<comment> \<open>The lengths a \<open>+\<close> of the class can take at the start of the text, longest first.\<close>
  "greedy_lengths c s = rev [1 ..< Suc (length (takeWhile (in_cls c) s))]"

primrec match_seq :: "piece list \<Rightarrow> string \<Rightarrow> string \<Rightarrow> string option" where
  \<comment> \<open>Match the pieces at the start of the text; the result is group 1. The second
      argument is group 1 as captured so far.\<close>
  "match_seq [] = (\<lambda>grp s. Some grp)"
| "match_seq (p # ps) = (\<lambda>grp s.
     case p of
       Once c \<Rightarrow> (case s of [] \<Rightarrow> None
                  | x # xs \<Rightarrow> if in_cls c x then match_seq ps grp xs else None)
     | Plus c \<Rightarrow> first_some (\<lambda>n. match_seq ps grp (drop n s)) (greedy_lengths c s)
     | Group_Plus c \<Rightarrow> first_some (\<lambda>n. match_seq ps (take n s) (drop n s)) (greedy_lengths c s))"

fun re_search :: "piece list \<Rightarrow> string \<Rightarrow> string option" where
  \<comment> \<open>\<open>re.search\<close>: group 1 of the leftmost match, or None.\<close>
  "re_search ps [] = match_seq ps [] []"
| "re_search ps (c # cs) =
     (case match_seq ps [] (c # cs) of Some g \<Rightarrow> Some g | None \<Rightarrow> re_search ps cs)"

section \<open>Snapshots and the metric parser\<close>

text \<open>
  The dict that \<open>get_metrics\<close> returns maps a key to a float, to None, or (under the
  key \<open>error\<close>) to the text \<open>str(e)\<close> of an exception. The text is kept as the exception
  it describes.
\<close>

datatype val = Null | Num pyfloat | Description exn

type_synonym snapshot = "string \<rightharpoonup> val"

definition parse_disk :: "string \<Rightarrow> snapshot \<Rightarrow> exn + snapshot" where
  "parse_disk df_out metrics =
     (case re_search disk_pattern df_out of
        Some g \<Rightarrow>
          (case py_float g of
             Inl e \<Rightarrow> Inl e
           | Inr v \<Rightarrow> Inr (metrics(''disk_root_used_pct'' \<mapsto> Num v)))
      | None \<Rightarrow> Inr (metrics(''disk_root_used_pct'' \<mapsto> Null)))"

definition mem_line :: "string list \<Rightarrow> snapshot \<Rightarrow> exn + snapshot" where
  \<comment> \<open>The body of the loop for the line that starts with \<open>Mem:\<close>, up to its \<open>break\<close>.\<close>
  "mem_line parts metrics =
     (case py_index parts 1 of
        Inl e \<Rightarrow> Inl e
      | Inr p1 \<Rightarrow>
     (case py_float p1 of
        Inl e \<Rightarrow> Inl e
      | Inr tot \<Rightarrow>
     (case (if length parts \<ge> 7 then py_index parts 6 else py_index parts 3) of
        Inl e \<Rightarrow> Inl e
      | Inr p \<Rightarrow>
     (case py_float p of
        Inl e \<Rightarrow> Inl e
      | Inr free \<Rightarrow>
          Inr (metrics(''mem_total_mb'' \<mapsto> Num tot, ''mem_free_mb'' \<mapsto> Num free))))))"

fun mem_loop :: "string list \<Rightarrow> snapshot \<Rightarrow> exn + snapshot" where
  \<comment> \<open>\<open>for line in free_out.splitlines(): ... else: ...\<close>\<close>
  "mem_loop [] metrics = Inr (metrics(''mem_total_mb'' \<mapsto> Null, ''mem_free_mb'' \<mapsto> Null))"
| "mem_loop (line # lines) metrics =
     (if startswith line ''Mem:'' then mem_line (split line) metrics
      else mem_loop lines metrics)"

definition parse_memory :: "string \<Rightarrow> snapshot \<Rightarrow> exn + snapshot" where
  "parse_memory free_out metrics = mem_loop (splitlines free_out) metrics"

definition parse_load :: "string \<Rightarrow> snapshot \<Rightarrow> exn + snapshot" where
  "parse_load loadavg_out metrics =
     (let parts = split loadavg_out in
      if length parts \<ge> 3 then
        (case py_float (parts ! 0) of
           Inl e \<Rightarrow> Inl e
         | Inr l1 \<Rightarrow>
        (case py_float (parts ! 1) of
           Inl e \<Rightarrow> Inl e
         | Inr l5 \<Rightarrow>
        (case py_float (parts ! 2) of
           Inl e \<Rightarrow> Inl e
         | Inr l15 \<Rightarrow>
             Inr (metrics(''cpu_load_1m'' \<mapsto> Num l1, ''cpu_load_5m'' \<mapsto> Num l5,
                          ''cpu_load_15m'' \<mapsto> Num l15)))))
      else Inr (metrics(''cpu_load_1m'' \<mapsto> Null, ''cpu_load_5m'' \<mapsto> Null,
                        ''cpu_load_15m'' \<mapsto> Null)))"

definition parse_temperature :: "string \<Rightarrow> snapshot \<Rightarrow> exn + snapshot" where
  \<comment> \<open>The inner \<open>try\<close>: ValueError (and TypeError) become None, anything else propagates.\<close>
  "parse_temperature temp_raw metrics =
     (case py_float temp_raw of
        Inr v \<Rightarrow> Inr (metrics(''temperature_c'' \<mapsto> Num (fdiv v 1000)))
      | Inl (ValueError t) \<Rightarrow> Inr (metrics(''temperature_c'' \<mapsto> Null))
      | Inl TypeError \<Rightarrow> Inr (metrics(''temperature_c'' \<mapsto> Null))
      | Inl e \<Rightarrow> Inl e)"

definition parse_metrics :: "string \<Rightarrow> string \<Rightarrow> string \<Rightarrow> string \<Rightarrow> exn + snapshot" where
  \<comment> \<open>Lines 51 to 85 of \<open>get_metrics\<close>: the four parsers in order, on an empty dict.\<close>
  "parse_metrics df_out free_out loadavg_out temp_raw =
     (case parse_disk df_out Map.empty of
        Inl e \<Rightarrow> Inl e
      | Inr m1 \<Rightarrow>
     (case parse_memory free_out m1 of
        Inl e \<Rightarrow> Inl e
      | Inr m2 \<Rightarrow>
     (case parse_load loadavg_out m2 of
        Inl e \<Rightarrow> Inl e
      | Inr m3 \<Rightarrow> parse_temperature temp_raw m3)))"

definition metric_keys :: "string set" where
  "metric_keys = {''disk_root_used_pct'', ''mem_total_mb'', ''mem_free_mb'', ''cpu_load_1m'',
                  ''cpu_load_5m'', ''cpu_load_15m'', ''temperature_c''}"

definition success_shape :: "snapshot \<Rightarrow> bool" where
  "success_shape m = (dom m = metric_keys)"

definition failure_shape :: "snapshot \<Rightarrow> bool" where
  "failure_shape m = (dom m = {''error''})"

section \<open>Host configuration\<close>

text \<open>
  The values of a loaded JSON document. A dict is the list of its items (keys distinct).
  \<open>truthy\<close> is Python's truth value, as \<open>if\<close>, \<open>and\<close> and \<open>or\<close> take it.
\<close>

datatype json =
    JNull | JBool bool | JInt int | JFloat pyfloat | JStr string
  | JList "json list" | JDict "(string \<times> json) list"

fun truthy :: "json \<Rightarrow> bool" where
  "truthy JNull = False"
| "truthy (JBool b) = b"
| "truthy (JInt i) = (i \<noteq> 0)"
| "truthy (JFloat f) = (float_value f \<noteq> Finite 0)"
| "truthy (JStr s) = (s \<noteq> [])"
| "truthy (JList xs) = (xs \<noteq> [])"
| "truthy (JDict d) = (d \<noteq> [])"

definition dict_get :: "(string \<times> json) list \<Rightarrow> string \<Rightarrow> json \<Rightarrow> json" where
  \<comment> \<open>\<open>d.get(k, default)\<close>; \<open>d.get(k)\<close> is \<open>dict_get d k JNull\<close>.\<close>
  "dict_get d k dflt = (case map_of d k of None \<Rightarrow> dflt | Some v \<Rightarrow> v)"

record RemoteMonitor =
  hostname :: json
  username :: json
  key_filename :: json
  password :: json
  port :: json
  label :: json

definition init_monitor :: "json \<Rightarrow> json \<Rightarrow> json \<Rightarrow> json \<Rightarrow> json \<Rightarrow> json \<Rightarrow> RemoteMonitor" where
  \<comment> \<open>\<open>RemoteMonitor.__init__\<close>: the label falls back to the hostname.\<close>
  "init_monitor h u k pw p l =
     \<lparr>hostname = h, username = u, key_filename = k, password = pw, port = p,
      label = (if truthy l then l else h)\<rparr>"

definition monitor_of :: "(string \<times> json) list \<Rightarrow> RemoteMonitor" where
  \<comment> \<open>The monitor built from a valid entry (lines 103 to 116).\<close>
  "monitor_of h =
     init_monitor (dict_get h ''hostname'' JNull) (dict_get h ''username'' JNull)
       (dict_get h ''key_filename'' JNull) (dict_get h ''password'' JNull)
       (dict_get h ''port'' (JInt 22)) (dict_get h ''label'' JNull)"

definition valid_entry :: "(string \<times> json) list \<Rightarrow> bool" where
  \<comment> \<open>\<open>if hostname and username\<close>\<close>
  "valid_entry h = (truthy (dict_get h ''hostname'' JNull) \<and> truthy (dict_get h ''username'' JNull))"

fun hosts_loop ::
  "json list \<Rightarrow> RemoteMonitor list \<Rightarrow> json list \<Rightarrow> (exn + RemoteMonitor list) \<times> json list" where
  \<comment> \<open>\<open>for h in hosts_config\<close>, with the monitors so far and the warnings printed so far.\<close>
  "hosts_loop [] monitors warnings = (Inr monitors, warnings)"
| "hosts_loop (h # hs) monitors warnings =
     (case h of
        JDict d \<Rightarrow>
          if valid_entry d then hosts_loop hs (monitors @ [monitor_of d]) warnings
          else hosts_loop hs monitors (warnings @ [h])
      | _ \<Rightarrow> (Inl AttributeError, warnings))"

definition load_hosts_from_json :: "json \<Rightarrow> (exn + RemoteMonitor list) \<times> json list" where
  \<comment> \<open>The argument is \<open>data\<close>, the document that \<open>json.load\<close> returned. The result is
      the returned list (or the exception raised) and the warnings printed.\<close>
  "load_hosts_from_json data =
     (case data of
        JDict d \<Rightarrow>
          (case dict_get d ''hosts'' (JList []) of
             JList hs \<Rightarrow> hosts_loop hs [] []
           | JStr cs \<Rightarrow> hosts_loop (map (\<lambda>c. JStr [c]) cs) [] []
           | JDict items \<Rightarrow> hosts_loop (map (\<lambda>kv. JStr (fst kv)) items) [] []
           | _ \<Rightarrow> (Inl TypeError, []))
      | _ \<Rightarrow> (Inl AttributeError, []))"

section \<open>Polling one host\<close>

text \<open>
  An open session answers a command with the decoded text of its output, or raises. The
  network answers a connection attempt of a monitor with a session, or raises. The trace
  records what was done to the session.
\<close>

type_synonym session = "string \<Rightarrow> exn + string"

type_synonym network = "RemoteMonitor \<Rightarrow> exn + session"

datatype event = Connected | Exec string | Closed

definition connect :: "RemoteMonitor \<Rightarrow> network \<Rightarrow> exn + session" where
  \<comment> \<open>\<open>_connect\<close>: returns the client, or raises what \<open>client.connect\<close> raised.\<close>
  "connect self net = net self"

definition run_and_parse :: "session \<Rightarrow> (exn + snapshot) \<times> event list" where
  \<comment> \<open>Lines 39 to 85: the four commands in order, then the parsers.\<close>
  "run_and_parse client =
     (case client ''df -h /'' of
        Inl e \<Rightarrow> (Inl e, [Exec ''df -h /''])
      | Inr df_out \<Rightarrow>
     (case client ''free -m'' of
        Inl e \<Rightarrow> (Inl e, [Exec ''df -h /'', Exec ''free -m''])
      | Inr free_out \<Rightarrow>
     (case client ''cat /proc/loadavg'' of
        Inl e \<Rightarrow> (Inl e, [Exec ''df -h /'', Exec ''free -m'', Exec ''cat /proc/loadavg''])
      | Inr loadavg_out \<Rightarrow>
     (case client ''cat /sys/class/thermal/thermal_zone0/temp'' of
        Inl e \<Rightarrow> (Inl e, [Exec ''df -h /'', Exec ''free -m'', Exec ''cat /proc/loadavg'',
                           Exec ''cat /sys/class/thermal/thermal_zone0/temp''])
      | Inr temp_out \<Rightarrow>
          (parse_metrics df_out free_out loadavg_out (strip temp_out),
           [Exec ''df -h /'', Exec ''free -m'', Exec ''cat /proc/loadavg'',
            Exec ''cat /sys/class/thermal/thermal_zone0/temp''])))))"

definition get_metrics :: "RemoteMonitor \<Rightarrow> network \<Rightarrow> snapshot \<times> event list" where
  \<comment> \<open>\<open>try\<close>, \<open>except Exception\<close>, \<open>finally\<close>: \<open>client\<close> is None until \<open>_connect\<close> has returned.\<close>
  "get_metrics self net =
     (let (client, outcome, trace) =
            (case connect self net of
               Inl e \<Rightarrow> (None, Inl e, [])
             | Inr c \<Rightarrow> (case run_and_parse c of (r, evs) \<Rightarrow> (Some c, r, Connected # evs)));
          result = (case outcome of
                      Inr metrics \<Rightarrow> metrics
                    | Inl e \<Rightarrow> [''error'' \<mapsto> Description e])
      in (result, (case client of None \<Rightarrow> trace | Some c \<Rightarrow> trace @ [Closed])))"

section \<open>The poll cycle\<close>

text \<open>
  What \<open>main\<close> prints: a header for each cycle and a line for each host. A cycle meets a
  network for each position of the registry; the loop of \<open>main\<close> never ends, and its
  first cycles are determined by the list of what they meet.
\<close>

datatype out = Header | Host_Line json json snapshot

fun poll_from :: "nat \<Rightarrow> RemoteMonitor list \<Rightarrow> (nat \<Rightarrow> network) \<Rightarrow> out list" where
  \<comment> \<open>\<open>for mon in monitors\<close>, from position \<open>i\<close> of the registry.\<close>
  "poll_from i [] world = []"
| "poll_from i (mon # mons) world =
     Host_Line (label mon) (hostname mon) (fst (get_metrics mon (world i)))
       # poll_from (Suc i) mons world"

definition poll_cycle :: "RemoteMonitor list \<Rightarrow> (nat \<Rightarrow> network) \<Rightarrow> out list" where
  "poll_cycle monitors world = poll_from 0 monitors world"

fun main_loop :: "RemoteMonitor list \<Rightarrow> (nat \<Rightarrow> network) list \<Rightarrow> out list" where
  \<comment> \<open>The output of the first cycles of \<open>while True\<close>, one for each world of the list.\<close>
  "main_loop monitors [] = []"
| "main_loop monitors (world # worlds) =
     Header # poll_cycle monitors world @ main_loop monitors worlds"

fun snapshot_of :: "out \<Rightarrow> snapshot" where
  "snapshot_of Header = Map.empty"
| "snapshot_of (Host_Line l h m) = m"

section \<open>Concrete hosts\<close>

definition replies :: "string \<Rightarrow> string \<Rightarrow> string \<Rightarrow> string \<Rightarrow> session" where
  \<comment> \<open>A session on which the four commands run and print the given texts.\<close>
  "replies df_out free_out loadavg_out temp_out cmd =
     (if cmd = ''df -h /'' then Inr df_out
      else if cmd = ''free -m'' then Inr free_out
      else if cmd = ''cat /proc/loadavg'' then Inr loadavg_out
      else if cmd = ''cat /sys/class/thermal/thermal_zone0/temp'' then Inr temp_out
      else Inl (OtherError ''no such command''))"

definition reachable :: "session \<Rightarrow> network" where
  \<comment> \<open>A network on which every connection attempt gets the given session.\<close>
  "reachable c self = Inr c"

definition unreachable :: "string \<Rightarrow> network" where
  \<comment> \<open>A network on which every connection attempt raises.\<close>
  "unreachable msg self = Inl (OtherError msg)"

definition dropping :: session where
  \<comment> \<open>A session that runs the first command and raises on every later one.\<close>
  "dropping cmd = (if cmd = ''df -h /'' then Inr [] else Inl (OtherError ''channel closed''))"

definition host :: "string \<Rightarrow> RemoteMonitor" where
  \<comment> \<open>The monitor of a host entry with the given hostname and the username \<open>pi\<close>.\<close>
  "host h = monitor_of [(''hostname'', JStr h), (''username'', JStr ''pi'')]"

section \<open>Vocabulary of the statements\<close>

definition token :: "string \<Rightarrow> bool" where
  "token t = (t \<noteq> [] \<and> list_all (\<lambda>c. \<not> is_space c) t)"

definition blank :: "string \<Rightarrow> bool" where
  "blank w = (w \<noteq> [] \<and> list_all is_space w)"

definition free_m :: string where
  "free_m =
     ''              total        used        free      shared  buff/cache   available'' @ [CHR 0x0A] @
     ''Mem:           1837         900          50          30         887         700'' @ [CHR 0x0A] @
     ''Swap:            99           0          99'' @ [CHR 0x0A]"

definition hosts_json :: "(string \<times> json) list list" where
  \<comment> \<open>The entries of a \<open>hosts.json\<close>: the second has no username, the third no hostname.\<close>
  "hosts_json =
     [[(''hostname'', JStr ''pi1''), (''username'', JStr ''pi'')],
      [(''hostname'', JStr ''pi2'')],
      [(''username'', JStr ''pi''), (''port'', JInt 2222)],
      [(''hostname'', JStr ''pi3''), (''username'', JStr ''pi'')]]"

definition host_succeeds :: "RemoteMonitor \<Rightarrow> network \<Rightarrow> bool" where
  \<comment> \<open>The poll of the host succeeds: \<open>_connect\<close> returns a session and the body of \<open>try\<close>
      reaches \<open>return metrics\<close>.\<close>
  "host_succeeds self net =
     (case connect self net of
        Inl e \<Rightarrow> False
      | Inr c \<Rightarrow> (case fst (run_and_parse c) of Inl e \<Rightarrow> False | Inr metrics \<Rightarrow> True))"

definition df_h :: string where
  "df_h =
     ''Filesystem      Size  Used Avail Use% Mounted on'' @ [CHR 0x0A] @
     ''/dev/root        29G  4.9G   23G  18% /'' @ [CHR 0x0A]"

definition healthy :: session where
  \<comment> \<open>A Raspberry Pi that answers all four commands.\<close>
  "healthy = replies df_h free_m (''0.15 0.22 0.10 1/241 12345'' @ [CHR 0x0A]) (''45780'' @ [CHR 0x0A])"

definition first_down :: "nat \<Rightarrow> network" where
  \<comment> \<open>A cycle in which the first host of the registry cannot be reached; every other host
      answers all four commands, \<open>free -m\<close> with the bare label \<open>Mem:\<close>.\<close>
  "first_down i = (if i = 0 then unreachable ''timed out'' else reachable (replies [] ''Mem:'' [] []))"

definition starts_with_match :: "string \<Rightarrow> string \<Rightarrow> bool" where
  \<comment> \<open>The text starts with an occurrence of \<open>\s+(\d+)%\s+/\<close> whose group 1 is \<open>ds\<close>:
      whitespace, the digits, a percent sign, whitespace, a slash.\<close>
  "starts_with_match s ds =
     (\<exists>ws ws2 tail. s = ws @ ds @ ''%'' @ ws2 @ ''/'' @ tail
        \<and> blank ws \<and> ds \<noteq> [] \<and> list_all is_digit ds \<and> blank ws2)"

definition disk_here :: "string \<Rightarrow> string option" where
  \<comment> \<open>The match at the start of the text without backtracking: every run is taken whole.\<close>
  "disk_here s =
     (let ws = takeWhile is_space s; r1 = dropWhile is_space s;
          ds = takeWhile is_digit r1; r2 = dropWhile is_digit r1;
          ws2 = takeWhile is_space (tl r2); r4 = dropWhile is_space (tl r2)
      in if ws \<noteq> [] \<and> ds \<noteq> [] \<and> r2 \<noteq> [] \<and> hd r2 = CHR ''%'' \<and> ws2 \<noteq> []
            \<and> r4 \<noteq> [] \<and> hd r4 = CHR ''/''
         then Some ds else None)"

definition df_two :: string where
  \<comment> \<open>Two rows: the percentage of the first is not followed by a path.\<close>
  "df_two = ''tmpfs 5% -'' @ [CHR 0x0A] @ ''root 18% /''"


section \<open>Evaluation\<close>

lemmas text_defs = splitlines_def split_def strip_def startswith_def is_space_def is_linebreak_def

lemmas float_defs = py_float_def float_text_def is_ascii_def signed_value_def number_def
  exponent_part_def is_digit_def digits_val_def digit_val_def scale_def is_c_space_def to_lower_def

lemmas parse_defs = parse_metrics_def parse_disk_def disk_pattern_def greedy_lengths_def
  parse_memory_def mem_line_def py_index_def parse_load_def parse_temperature_def

lemmas poll_defs = get_metrics_def connect_def reachable_def unreachable_def replies_def
  run_and_parse_def

section \<open>The parser can raise\<close>

text \<open>
  Claim C1 says that parsing inside \<open>get_metrics\<close> never raises, whatever the four
  texts are. The memory parser indexes and converts the fields of the \<open>Mem:\<close> row without
  a guard, and the load parser converts its tokens without one: a row with fewer than
  two fields, a legacy row with fewer than four, a field or a token that is not a number
  each raise. At these inputs the parser returns no snapshot but an exception.
\<close>

theorem parse_metrics_raises:
  "parse_metrics [] ''Mem:'' [] [] = Inl IndexError
   \<and> parse_metrics [] ''Mem: 1837 900'' [] [] = Inl IndexError
   \<and> parse_metrics [] ''Mem: total used free'' [] [] = Inl (ValueError ''total'')
   \<and> parse_metrics [] [] ''up 3 days'' [] = Inl (ValueError ''up'')"
  by (simp add: parse_defs text_defs float_defs)

text \<open>
  Claim C2 says that \<open>get_metrics\<close> returns the failure shape only after a transport or
  authentication failure, never after a parse failure. Here the session is established
  and all four commands run; the memory row has three fields; the exception of the
  parser reaches \<open>except Exception\<close> and the snapshot has the failure shape.
\<close>

theorem get_metrics_parse_failure:
  "get_metrics self (reachable (replies [] ''Mem: 1837 900'' [] [])) =
     ([''error'' \<mapsto> Description IndexError],
      [Connected, Exec ''df -h /'', Exec ''free -m'', Exec ''cat /proc/loadavg'',
       Exec ''cat /sys/class/thermal/thermal_zone0/temp'', Closed])
   \<and> failure_shape (fst (get_metrics self (reachable (replies [] ''Mem: 1837 900'' [] []))))"
  by (simp add: poll_defs failure_shape_def parse_defs text_defs float_defs)

section \<open>The session is closed exactly once\<close>

lemma no_session_no_close:
  "connect self net = Inl e \<Longrightarrow> snd (get_metrics self net) = []"
  by (simp add: get_metrics_def)

text \<open>
  Claim C5: on every path of \<open>get_metrics\<close> on which \<open>_connect\<close> returned a session,
  whatever the commands and the parsers do afterwards, \<open>close\<close> is called exactly once,
  as the last thing done to the session.
\<close>

theorem close_exactly_once:
  assumes "connect self net = Inr c"
  shows "count_list (snd (get_metrics self net)) Closed = 1
         \<and> last (snd (get_metrics self net)) = Closed
         \<and> hd (snd (get_metrics self net)) = Connected"
  using assms by (auto simp: get_metrics_def run_and_parse_def split: sum.splits)

theorem close_exactly_once_witness:
  "connect (host ''pi1'') (reachable dropping) = Inr dropping
   \<and> count_list (snd (get_metrics (host ''pi1'') (reachable dropping))) Closed = 1
   \<and> last (snd (get_metrics (host ''pi1'') (reachable dropping))) = Closed
   \<and> hd (snd (get_metrics (host ''pi1'') (reachable dropping))) = Connected"
proof -
  have h: "connect (host ''pi1'') (reachable dropping) = Inr dropping"
    by (simp add: connect_def reachable_def)
  show ?thesis using h close_exactly_once [OF h] by simp
qed

section \<open>What \<open>float()\<close> accepts\<close>

lemma py_float_error: "py_float s = Inl e \<Longrightarrow> e = ValueError s"
  by (auto simp: py_float_def split: option.splits)

lemma drop_underscores_none:
  "CHR ''_'' \<notin> set s \<Longrightarrow> prev \<noteq> CHR ''_'' \<Longrightarrow> drop_underscores prev s = Some s"
  by (induction s arbitrary: prev) auto

lemma digit_facts:
  "is_digit c \<Longrightarrow> is_ascii c \<and> c \<noteq> CHR ''_'' \<and> \<not> is_c_space c \<and> \<not> is_space c
     \<and> c \<noteq> CHR ''-'' \<and> c \<noteq> CHR ''+'' \<and> c \<noteq> CHR ''%''"
  by (auto simp: is_digit_def is_ascii_def is_c_space_def is_space_def)

lemma number_digits:
  "ds \<noteq> [] \<Longrightarrow> list_all is_digit ds \<Longrightarrow> number ds = Some (of_nat (digits_val ds))"
proof -
  assume a: "ds \<noteq> []" "list_all is_digit ds"
  then have tw: "takeWhile is_digit ds = ds" and dw: "dropWhile is_digit ds = []"
    by (simp_all add: list_all_iff)
  show ?thesis unfolding number_def Let_def tw dw using a(1) by (simp add: scale_def)
qed

lemma take_sign_digits: "ds \<noteq> [] \<Longrightarrow> list_all is_digit ds \<Longrightarrow> take_sign ds = (False, ds)"
  by (cases ds) (auto dest: digit_facts)

lemma trim_digits:
  assumes "ds \<noteq> []" "list_all is_digit ds"
  shows "rev (dropWhile is_c_space (rev (dropWhile is_c_space ds))) = ds"
proof -
  have "is_digit (hd ds)" "is_digit (last ds)"
    using assms by (simp_all add: list_all_iff)
  then have a: "\<not> is_c_space (hd ds)" and b: "\<not> is_c_space (last ds)"
    using digit_facts by blast+
  from a assms(1) have "dropWhile is_c_space ds = ds" by (cases ds) auto
  moreover from b assms(1) have "dropWhile is_c_space (rev ds) = rev ds"
    by (cases "rev ds") (auto simp: last_rev hd_rev)
  ultimately show ?thesis by simp
qed

lemma py_float_digits:
  assumes "ds \<noteq> []" "list_all is_digit ds"
  shows "py_float ds = Inr (Finite (of_nat (digits_val ds)))"
proof -
  have "list_all is_ascii ds" "CHR ''_'' \<notin> set ds"
    using assms(2) by (auto simp: list_all_iff dest: digit_facts)
  then have "drop_underscores (CHR 0x00) (float_text ds) = Some ds"
    by (simp add: float_text_def drop_underscores_none)
  then show ?thesis
    using assms by (simp add: py_float_def trim_digits signed_value_def take_sign_digits number_digits)
qed

lemma parse_temperature_total:
  "\<exists>v. parse_temperature temp_raw m = Inr (m(''temperature_c'' \<mapsto> v))"
  by (auto simp: parse_temperature_def split: sum.splits exn.splits dest: py_float_error)

section \<open>Splitting on whitespace\<close>






lemma split_from_tokens:
  "list_all (\<lambda>c. \<not> is_space c) cur \<Longrightarrow> list_all token (split_from s cur)"
proof (induction s arbitrary: cur)
  case Nil
  then show ?case by (simp add: token_def)
next
  case (Cons c s)
  show ?case
  proof (cases "is_space c")
    case True
    then show ?thesis using Cons.IH [of "[]"] Cons.prems by (simp add: token_def)
  next
    case False
    then show ?thesis using Cons.IH [of "c # cur"] Cons.prems by simp
  qed
qed

lemma split_tokens: "list_all token (split s)"
  by (simp add: split_def split_from_tokens)


section \<open>Load average\<close>



section \<open>Memory\<close>

lemma mem_loop_find:
  "mem_loop lines m =
     (case find (\<lambda>l. startswith l ''Mem:'') lines of
        None \<Rightarrow> Inr (m(''mem_total_mb'' \<mapsto> Null, ''mem_free_mb'' \<mapsto> Null))
      | Some line \<Rightarrow> mem_line (split line) m)"
  by (induction lines) auto

lemma mem_line_available:
  assumes "7 \<le> length parts" "py_float (parts ! 1) = Inr t" "py_float (parts ! 6) = Inr f"
  shows "mem_line parts m = Inr (m(''mem_total_mb'' \<mapsto> Num t, ''mem_free_mb'' \<mapsto> Num f))"
  using assms by (simp add: mem_line_def py_index_def)

lemma mem_line_legacy:
  assumes "4 \<le> length parts" "length parts < 7" "py_float (parts ! 1) = Inr t"
    "py_float (parts ! 3) = Inr f"
  shows "mem_line parts m = Inr (m(''mem_total_mb'' \<mapsto> Num t, ''mem_free_mb'' \<mapsto> Num f))"
  using assms by (simp add: mem_line_def py_index_def)

lemma free_m_lines:
  "splitlines free_m =
     [''              total        used        free      shared  buff/cache   available'',
      ''Mem:           1837         900          50          30         887         700'',
      ''Swap:            99           0          99'']"
  by (simp add: free_m_def splitlines_def is_linebreak_def)

lemma free_m_row:
  "split ''Mem:           1837         900          50          30         887         700''
     = [''Mem:'', ''1837'', ''900'', ''50'', ''30'', ''887'', ''700'']"
  by (simp add: split_def is_space_def)

text \<open>
  Claim C3, amended. The memory parser takes the first line that starts with \<open>Mem:\<close> and
  splits it on whitespace; the fields are counted with the label as the first. When
  no line starts with \<open>Mem:\<close>, both fields are None. When the row has at least seven
  fields and \<open>float()\<close> accepts the second and the seventh, these are the total and the
  free megabytes; when it has four to six fields and \<open>float()\<close> accepts the second and
  the fourth, these are. The row \<open>Mem: 1837 900 50 30 5 100 700\<close> has eight fields: its
  total is 1837 and its free value is the seventh field, 100. The row
  \<open>Mem: 1837 900 937\<close> has four: its free value is the fourth field, 937.
\<close>

theorem memory_row_fields:
  "((\<forall>l \<in> set (splitlines free_out). \<not> startswith l ''Mem:'') \<longrightarrow>
      parse_memory free_out m = Inr (m(''mem_total_mb'' \<mapsto> Null, ''mem_free_mb'' \<mapsto> Null)))
   \<and> (find (\<lambda>l. startswith l ''Mem:'') (splitlines free_out) = Some line
        \<and> 7 \<le> length (split line)
        \<and> py_float (split line ! 1) = Inr t \<and> py_float (split line ! 6) = Inr f \<longrightarrow>
      parse_memory free_out m = Inr (m(''mem_total_mb'' \<mapsto> Num t, ''mem_free_mb'' \<mapsto> Num f)))
   \<and> (find (\<lambda>l. startswith l ''Mem:'') (splitlines free_out) = Some line
        \<and> 4 \<le> length (split line) \<and> length (split line) < 7
        \<and> py_float (split line ! 1) = Inr t \<and> py_float (split line ! 3) = Inr f \<longrightarrow>
      parse_memory free_out m = Inr (m(''mem_total_mb'' \<mapsto> Num t, ''mem_free_mb'' \<mapsto> Num f)))
   \<and> parse_memory ''Mem: 1837 900 50 30 5 100 700'' m =
        Inr (m(''mem_total_mb'' \<mapsto> Num (Finite 1837), ''mem_free_mb'' \<mapsto> Num (Finite 100)))
   \<and> parse_memory ''Mem: 1837 900 937'' m =
        Inr (m(''mem_total_mb'' \<mapsto> Num (Finite 1837), ''mem_free_mb'' \<mapsto> Num (Finite 937)))"
proof (intro conjI impI)
  assume "\<forall>l \<in> set (splitlines free_out). \<not> startswith l ''Mem:''"
  then have "find (\<lambda>l. startswith l ''Mem:'') (splitlines free_out) = None"
    by (simp add: find_None_iff)
  then show "parse_memory free_out m = Inr (m(''mem_total_mb'' \<mapsto> Null, ''mem_free_mb'' \<mapsto> Null))"
    by (simp add: parse_memory_def mem_loop_find)
next
  assume "find (\<lambda>l. startswith l ''Mem:'') (splitlines free_out) = Some line
        \<and> 7 \<le> length (split line)
        \<and> py_float (split line ! 1) = Inr t \<and> py_float (split line ! 6) = Inr f"
  then show "parse_memory free_out m = Inr (m(''mem_total_mb'' \<mapsto> Num t, ''mem_free_mb'' \<mapsto> Num f))"
    by (simp add: parse_memory_def mem_loop_find mem_line_available)
next
  assume "find (\<lambda>l. startswith l ''Mem:'') (splitlines free_out) = Some line
        \<and> 4 \<le> length (split line) \<and> length (split line) < 7
        \<and> py_float (split line ! 1) = Inr t \<and> py_float (split line ! 3) = Inr f"
  then show "parse_memory free_out m = Inr (m(''mem_total_mb'' \<mapsto> Num t, ''mem_free_mb'' \<mapsto> Num f))"
    by (simp add: parse_memory_def mem_loop_find mem_line_legacy)
next
  show "parse_memory ''Mem: 1837 900 50 30 5 100 700'' m =
        Inr (m(''mem_total_mb'' \<mapsto> Num (Finite 1837), ''mem_free_mb'' \<mapsto> Num (Finite 100)))"
    by (simp add: parse_memory_def mem_line_def py_index_def text_defs float_defs)
next
  show "parse_memory ''Mem: 1837 900 937'' m =
        Inr (m(''mem_total_mb'' \<mapsto> Num (Finite 1837), ''mem_free_mb'' \<mapsto> Num (Finite 937)))"
    by (simp add: parse_memory_def mem_line_def py_index_def text_defs float_defs)
qed

theorem memory_row_fields_witness:
  "list_all (\<lambda>l. \<not> startswith l ''Mem:'') (splitlines ''free: command not found'')
   \<and> parse_memory ''free: command not found'' Map.empty
       = Inr [''mem_total_mb'' \<mapsto> Null, ''mem_free_mb'' \<mapsto> Null]
   \<and> find (\<lambda>l. startswith l ''Mem:'') (splitlines free_m)
       = Some ''Mem:           1837         900          50          30         887         700''
   \<and> parse_memory free_m Map.empty
       = Inr [''mem_total_mb'' \<mapsto> Num (Finite 1837), ''mem_free_mb'' \<mapsto> Num (Finite 700)]
   \<and> find (\<lambda>l. startswith l ''Mem:'') (splitlines ''Mem: 8 4 2 1'') = Some ''Mem: 8 4 2 1''
   \<and> parse_memory ''Mem: 8 4 2 1'' Map.empty
       = Inr [''mem_total_mb'' \<mapsto> Num (Finite 8), ''mem_free_mb'' \<mapsto> Num (Finite 2)]"
proof -
  have a: "\<forall>l \<in> set (splitlines ''free: command not found''). \<not> startswith l ''Mem:''"
    by (simp add: text_defs)
  have b: "find (\<lambda>l. startswith l ''Mem:'') (splitlines free_m)
       = Some ''Mem:           1837         900          50          30         887         700''"
    by (simp add: free_m_lines startswith_def)
  have c: "py_float ''1837'' = Inr (Finite 1837)" "py_float ''700'' = Inr (Finite 700)"
    "py_float ''8'' = Inr (Finite 8)" "py_float ''2'' = Inr (Finite 2)"
    by (simp_all add: float_defs)
  have d: "find (\<lambda>l. startswith l ''Mem:'') (splitlines ''Mem: 8 4 2 1'') = Some ''Mem: 8 4 2 1''"
    by (simp add: text_defs)
  have e: "split ''Mem: 8 4 2 1'' = [''Mem:'', ''8'', ''4'', ''2'', ''1'']"
    by (simp add: text_defs)
  note t1 = memory_row_fields [of "''free: command not found''" Map.empty]
  note t2 = memory_row_fields [where free_out = free_m and m = Map.empty and t = "Finite 1837"
      and f = "Finite 700"
      and line = "''Mem:           1837         900          50          30         887         700''"]
  note t3 = memory_row_fields [where free_out = "''Mem: 8 4 2 1''" and m = Map.empty
      and line = "''Mem: 8 4 2 1''" and t = "Finite 8" and f = "Finite 2"]
  have a': "list_all (\<lambda>l. \<not> startswith l ''Mem:'') (splitlines ''free: command not found'')"
    using a by (simp only: list_all_iff)
  have e1: "parse_memory ''free: command not found'' Map.empty
       = Inr [''mem_total_mb'' \<mapsto> Null, ''mem_free_mb'' \<mapsto> Null]"
    using a t1 by blast
  have e2: "parse_memory free_m Map.empty
       = Inr [''mem_total_mb'' \<mapsto> Num (Finite 1837), ''mem_free_mb'' \<mapsto> Num (Finite 700)]"
    using b c free_m_row t2 by simp
  have e3: "parse_memory ''Mem: 8 4 2 1'' Map.empty
       = Inr [''mem_total_mb'' \<mapsto> Num (Finite 8), ''mem_free_mb'' \<mapsto> Num (Finite 2)]"
    using c d e t3 by simp
  show ?thesis by (intro conjI a' e1 b e2 d e3)
qed

text \<open>
  Claim C3 as stated gives 700 for the free value of \<open>Mem: 1837 900 50 30 5 100 700\<close>.
  The snapshot of a host that prints this row has 100 there.
\<close>

theorem memory_example_counterexample:
  "fst (get_metrics (host ''pi1'') (reachable (replies [] ''Mem: 1837 900 50 30 5 100 700'' [] [])))
     ''mem_free_mb'' = Some (Num (Finite 100))
   \<and> Num (Finite 100) \<noteq> Num (Finite 700)"
  by (simp add: poll_defs parse_defs text_defs float_defs)

section \<open>Loading the registry\<close>

lemma hosts_loop_dicts:
  "hosts_loop (map JDict ds) monitors warnings =
     (Inr (monitors @ map monitor_of (filter valid_entry ds)),
      warnings @ map JDict (filter (\<lambda>d. \<not> valid_entry d) ds))"
  by (induction ds arbitrary: monitors warnings) auto

lemma valid_entry_strings:
  "map_of d ''hostname'' = Some (JStr h) \<Longrightarrow> map_of d ''username'' = Some (JStr u) \<Longrightarrow>
     valid_entry d = (h \<noteq> [] \<and> u \<noteq> [])"
  by (simp add: valid_entry_def dict_get_def)

lemma valid_entry_missing:
  "map_of d ''hostname'' = None \<or> map_of d ''username'' = None \<Longrightarrow> \<not> valid_entry d"
  by (auto simp: valid_entry_def dict_get_def)

text \<open>
  Claim C6, amended. For every list of host entries (JSON objects) under the key
  \<open>hosts\<close>, loading returns the monitors of exactly the entries whose hostname and
  username are both truthy, in their original order, prints a warning for every other
  entry, in order, and does not raise. For string values truthy means present and not
  empty; an entry without one of the two keys is dropped; a retained entry keeps its
  hostname and username.
\<close>

theorem registry_keeps_truthy_entries:
  "(dict_get data ''hosts'' (JList []) = JList (map JDict ds) \<longrightarrow>
      load_hosts_from_json (JDict data) =
        (Inr (map monitor_of (filter valid_entry ds)),
         map JDict (filter (\<lambda>d. \<not> valid_entry d) ds)))
   \<and> (map_of d ''hostname'' = Some (JStr h) \<and> map_of d ''username'' = Some (JStr u) \<longrightarrow>
        valid_entry d = (h \<noteq> [] \<and> u \<noteq> []))
   \<and> (map_of d ''hostname'' = None \<or> map_of d ''username'' = None \<longrightarrow> \<not> valid_entry d)
   \<and> (valid_entry d \<longrightarrow> hostname (monitor_of d) = dict_get d ''hostname'' JNull
        \<and> username (monitor_of d) = dict_get d ''username'' JNull)"
proof (intro conjI impI)
  assume "dict_get data ''hosts'' (JList []) = JList (map JDict ds)"
  then show "load_hosts_from_json (JDict data) =
        (Inr (map monitor_of (filter valid_entry ds)),
         map JDict (filter (\<lambda>d. \<not> valid_entry d) ds))"
    by (simp add: load_hosts_from_json_def hosts_loop_dicts)
next
  assume "map_of d ''hostname'' = Some (JStr h) \<and> map_of d ''username'' = Some (JStr u)"
  then show "valid_entry d = (h \<noteq> [] \<and> u \<noteq> [])"
    by (simp add: valid_entry_strings)
next
  assume "map_of d ''hostname'' = None \<or> map_of d ''username'' = None"
  then show "\<not> valid_entry d" by (rule valid_entry_missing)
next
  show "hostname (monitor_of d) = dict_get d ''hostname'' JNull"
    by (simp add: monitor_of_def init_monitor_def)
next
  show "username (monitor_of d) = dict_get d ''username'' JNull"
    by (simp add: monitor_of_def init_monitor_def)
qed

theorem registry_keeps_truthy_entries_witness:
  "dict_get [(''hosts'', JList (map JDict hosts_json))] ''hosts'' (JList []) = JList (map JDict hosts_json)
   \<and> load_hosts_from_json (JDict [(''hosts'', JList (map JDict hosts_json))]) =
       (Inr [host ''pi1'', host ''pi3''],
        [JDict [(''hostname'', JStr ''pi2'')], JDict [(''username'', JStr ''pi''), (''port'', JInt 2222)]])
   \<and> valid_entry [(''hostname'', JStr ''pi1''), (''username'', JStr ''pi'')]
   \<and> \<not> valid_entry [(''hostname'', JStr ''pi2'')]
   \<and> hostname (host ''pi1'') = JStr ''pi1''"
proof -
  have a: "dict_get [(''hosts'', JList (map JDict hosts_json))] ''hosts'' (JList [])
             = JList (map JDict hosts_json)"
    by (simp add: dict_get_def)
  have b: "valid_entry [(''hostname'', JStr ''pi1''), (''username'', JStr ''pi'')]"
    "\<not> valid_entry [(''hostname'', JStr ''pi2'')]"
    "\<not> valid_entry [(''username'', JStr ''pi''), (''port'', JInt 2222)]"
    "valid_entry [(''hostname'', JStr ''pi3''), (''username'', JStr ''pi'')]"
    by (simp_all add: valid_entry_def dict_get_def)
  note t1 = registry_keeps_truthy_entries [where data = "[(''hosts'', JList (map JDict hosts_json))]"
      and ds = hosts_json and d = "[(''hostname'', JStr ''pi1''), (''username'', JStr ''pi'')]"
      and h = "''pi1''" and u = "''pi''"]
  note t2 = registry_keeps_truthy_entries [where d = "[(''hostname'', JStr ''pi2'')]"]
  show ?thesis using a b t1 t2 by (simp add: hosts_json_def host_def dict_get_def)
qed

text \<open>
  Claim C6 as stated retains every entry that has both a hostname and a username. An
  entry with both keys whose hostname is the empty string is dropped with a warning.
\<close>

theorem empty_hostname_counterexample:
  "map_of [(''hostname'', JStr ''''), (''username'', JStr ''pi'')] ''hostname'' = Some (JStr '''')
   \<and> map_of [(''hostname'', JStr ''''), (''username'', JStr ''pi'')] ''username'' = Some (JStr ''pi'')
   \<and> load_hosts_from_json
        (JDict [(''hosts'', JList [JDict [(''hostname'', JStr ''''), (''username'', JStr ''pi'')]])])
      = (Inr [], [JDict [(''hostname'', JStr ''''), (''username'', JStr ''pi'')]])"
  by (simp add: load_hosts_from_json_def dict_get_def valid_entry_def)

section \<open>The two shapes of a snapshot\<close>

lemma parse_disk_dom: "parse_disk df_out m = Inr m' \<Longrightarrow> dom m' = insert ''disk_root_used_pct'' (dom m)"
  by (auto simp: parse_disk_def split: option.splits sum.splits)

lemma mem_line_dom:
  "mem_line parts m = Inr m' \<Longrightarrow> dom m' = {''mem_total_mb'', ''mem_free_mb''} \<union> dom m"
  by (auto simp: mem_line_def split: sum.splits)

lemma parse_memory_dom:
  "parse_memory free_out m = Inr m' \<Longrightarrow> dom m' = {''mem_total_mb'', ''mem_free_mb''} \<union> dom m"
proof (cases "find (\<lambda>l. startswith l ''Mem:'') (splitlines free_out)")
  case None
  assume "parse_memory free_out m = Inr m'"
  with None have "m' = m(''mem_total_mb'' \<mapsto> Null, ''mem_free_mb'' \<mapsto> Null)"
    by (simp add: parse_memory_def mem_loop_find)
  then show ?thesis by auto
next
  case (Some line)
  assume "parse_memory free_out m = Inr m'"
  with Some have "mem_line (split line) m = Inr m'"
    by (simp add: parse_memory_def mem_loop_find)
  then show ?thesis by (rule mem_line_dom)
qed

lemma parse_load_dom:
  "parse_load loadavg_out m = Inr m' \<Longrightarrow>
     dom m' = {''cpu_load_1m'', ''cpu_load_5m'', ''cpu_load_15m''} \<union> dom m"
  by (auto simp: parse_load_def Let_def split: if_splits sum.splits)

lemma parse_temperature_dom:
  "parse_temperature temp_raw m = Inr m' \<Longrightarrow> dom m' = insert ''temperature_c'' (dom m)"
  using parse_temperature_total [of temp_raw m] by auto

lemma parse_metrics_dom:
  assumes "parse_metrics df_out free_out loadavg_out temp_raw = Inr m"
  shows "dom m = metric_keys"
proof -
  from assms obtain m1 m2 m3 where
    1: "parse_disk df_out Map.empty = Inr m1" and
    2: "parse_memory free_out m1 = Inr m2" and
    3: "parse_load loadavg_out m2 = Inr m3" and
    4: "parse_temperature temp_raw m3 = Inr m"
    by (auto simp: parse_metrics_def split: sum.splits)
  have "dom m1 = {''disk_root_used_pct''}" using parse_disk_dom [OF 1] by simp
  moreover note parse_memory_dom [OF 2] parse_load_dom [OF 3] parse_temperature_dom [OF 4]
  ultimately show ?thesis by (auto simp: metric_keys_def)
qed

lemma run_and_parse_dom: "fst (run_and_parse c) = Inr m \<Longrightarrow> dom m = metric_keys"
  by (auto simp: run_and_parse_def split: sum.splits dest: parse_metrics_dom)

lemma get_metrics_success:
  assumes "host_succeeds self net"
  shows "success_shape (fst (get_metrics self net))"
proof -
  from assms obtain c m where c: "connect self net = Inr c" and m: "fst (run_and_parse c) = Inr m"
    by (auto simp: host_succeeds_def split: sum.splits)
  have "fst (get_metrics self net) = m"
    using c m by (cases "run_and_parse c") (simp add: get_metrics_def)
  then show ?thesis using run_and_parse_dom [OF m] by (simp add: success_shape_def)
qed

lemma get_metrics_connect_failure:
  "connect self net = Inl e \<Longrightarrow> fst (get_metrics self net) = [''error'' \<mapsto> Description e]"
  by (simp add: get_metrics_def)

lemma shapes_exclusive: "success_shape m \<Longrightarrow> \<not> failure_shape m"
  by (auto simp: success_shape_def failure_shape_def metric_keys_def)

lemma get_metrics_shape:
  "success_shape (fst (get_metrics self net)) \<or> failure_shape (fst (get_metrics self net))"
proof (cases "connect self net")
  case (Inl e)
  then show ?thesis by (simp add: get_metrics_def failure_shape_def)
next
  case (Inr c)
  show ?thesis
  proof (cases "fst (run_and_parse c)")
    case (Inl e)
    then have "fst (get_metrics self net) = [''error'' \<mapsto> Description e]"
      using Inr by (cases "run_and_parse c") (simp add: get_metrics_def)
    then show ?thesis by (simp add: failure_shape_def)
  next
    case (Inr m)
    then have "fst (get_metrics self net) = m"
      using \<open>connect self net = Inr c\<close> by (cases "run_and_parse c") (simp add: get_metrics_def)
    then show ?thesis using run_and_parse_dom [OF Inr] by (simp add: success_shape_def)
  qed
qed

section \<open>A poll cycle\<close>

lemma length_poll_from: "length (poll_from i mons world) = length mons"
  by (induction mons arbitrary: i) auto

lemma nth_poll_from:
  "j < length mons \<Longrightarrow>
     poll_from i mons world ! j =
       Host_Line (label (mons ! j)) (hostname (mons ! j)) (fst (get_metrics (mons ! j) (world (i + j))))"
proof (induction mons arbitrary: i j)
  case Nil
  then show ?case by simp
next
  case (Cons mon mons)
  show ?case
  proof (cases j)
    case 0
    then show ?thesis by simp
  next
    case (Suc j')
    then show ?thesis using Cons.IH [of j' "Suc i"] Cons.prems by simp
  qed
qed

lemma filter_all_but_one:
  assumes "k < length xs" "\<not> P (xs ! k)" "\<forall>i < length xs. i \<noteq> k \<longrightarrow> P (xs ! i)"
  shows "length (filter P xs) = length xs - 1"
proof -
  have "{i. i < length xs \<and> P (xs ! i)} = {..<length xs} - {k}"
    using assms by auto
  then show ?thesis using assms(1) by (simp add: length_filter_conv_card)
qed

lemma filter_only_one:
  assumes "k < length xs" "Q (xs ! k)" "\<forall>i < length xs. i \<noteq> k \<longrightarrow> \<not> Q (xs ! i)"
  shows "length (filter Q xs) = 1"
proof -
  have "{i. i < length xs \<and> Q (xs ! i)} = {k}"
    using assms by auto
  then show ?thesis by (simp add: length_filter_conv_card)
qed

lemma main_loop_later:
  "drop (Suc (length mons)) (main_loop mons (world # later)) = main_loop mons later"
  by (simp add: poll_cycle_def length_poll_from)

lemma healthy_succeeds: "host_succeeds mon (reachable healthy)"
  by (simp add: host_succeeds_def healthy_def df_h_def free_m_def poll_defs parse_defs text_defs float_defs)

lemma cycle_when_the_others_return_metrics:
  assumes "k < length mons"
    and "connect (mons ! k) (world k) = Inl e"
    and "\<forall>i < length mons. i \<noteq> k \<longrightarrow> host_succeeds (mons ! i) (world i)"
  shows "length (poll_cycle mons world) = length mons
    \<and> (\<forall>i < length mons. poll_cycle mons world ! i =
          Host_Line (label (mons ! i)) (hostname (mons ! i)) (fst (get_metrics (mons ! i) (world i))))
    \<and> snapshot_of (poll_cycle mons world ! k) = [''error'' \<mapsto> Description e]
    \<and> failure_shape (snapshot_of (poll_cycle mons world ! k))
    \<and> (\<forall>i < length mons. i \<noteq> k \<longrightarrow> success_shape (snapshot_of (poll_cycle mons world ! i)))
    \<and> length (filter (\<lambda>l. success_shape (snapshot_of l)) (poll_cycle mons world)) = length mons - 1
    \<and> length (filter (\<lambda>l. failure_shape (snapshot_of l)) (poll_cycle mons world)) = 1
    \<and> drop (Suc (length mons)) (main_loop mons (world # later)) = main_loop mons later
    \<and> drop (Suc (length mons)) (main_loop mons (world # later))
        = drop (Suc (length mons)) (main_loop mons (world' # later))"
proof -
  let ?out = "poll_cycle mons world"
  have len: "length ?out = length mons"
    by (simp add: poll_cycle_def length_poll_from)
  have nth: "\<forall>i < length mons. ?out ! i =
          Host_Line (label (mons ! i)) (hostname (mons ! i)) (fst (get_metrics (mons ! i) (world i)))"
    by (simp add: poll_cycle_def nth_poll_from)
  have snap: "\<forall>i < length mons. snapshot_of (?out ! i) = fst (get_metrics (mons ! i) (world i))"
    using nth by simp
  have down: "snapshot_of (?out ! k) = [''error'' \<mapsto> Description e]"
    using snap assms(1,2) by (simp add: get_metrics_connect_failure)
  then have fail: "failure_shape (snapshot_of (?out ! k))"
    by (simp add: failure_shape_def)
  have up: "\<forall>i < length mons. i \<noteq> k \<longrightarrow> success_shape (snapshot_of (?out ! i))"
    using snap assms(3) by (simp add: get_metrics_success)
  have n_up: "length (filter (\<lambda>l. success_shape (snapshot_of l)) ?out) = length mons - 1"
    using filter_all_but_one [of k ?out "\<lambda>l. success_shape (snapshot_of l)"]
      assms(1) len fail up shapes_exclusive by auto
  have n_down: "length (filter (\<lambda>l. failure_shape (snapshot_of l)) ?out) = 1"
    using filter_only_one [of k ?out "\<lambda>l. failure_shape (snapshot_of l)"]
      assms(1) len fail up shapes_exclusive by auto
  have later: "drop (Suc (length mons)) (main_loop mons (world # later)) = main_loop mons later"
    "drop (Suc (length mons)) (main_loop mons (world # later))
        = drop (Suc (length mons)) (main_loop mons (world' # later))"
    by (simp_all only: main_loop_later)
  show ?thesis
    by (intro conjI len nth down fail up n_up n_down later)
qed

section \<open>The match of the disk pattern\<close>

text \<open>
  In \<open>\s+(\d+)%\s+/\<close> every \<open>+\<close> is followed by a character outside its class, so a
  shorter run never leads to a match: the backtracking matcher agrees with the one that
  takes every run whole, and a match at the start of a text is exactly a decomposition
  of the text into whitespace, digits, a percent sign, whitespace, a slash and a rest.
\<close>

lemma first_some_none: "(\<forall>n \<in> set ns. f n = None) \<Longrightarrow> first_some f ns = None"
  by (induction ns) auto

lemma first_some_longest:
  assumes "\<forall>n. 1 \<le> n \<and> n < N \<longrightarrow> f n = None"
  shows "first_some f (rev [1 ..< Suc N]) = (if N = 0 then None else f N)"
proof (cases N)
  case 0
  then show ?thesis by simp
next
  case (Suc N')
  have "first_some f (rev [1 ..< N]) = None"
    using assms by (intro first_some_none) auto
  then show ?thesis using Suc by (cases "f N") auto
qed

lemma drop_in_run:
  assumes "n < length (takeWhile P s)"
  shows "drop n s \<noteq> [] \<and> P (hd (drop n s))"
proof -
  have n: "n < length s"
    using assms length_takeWhile_le [of P s] by (rule less_le_trans)
  have "takeWhile P s ! n \<in> set (takeWhile P s)" using assms by simp
  then have "P (s ! n)" using assms by (auto simp: takeWhile_nth dest: set_takeWhileD)
  then show ?thesis using n by (simp add: hd_drop_conv_nth)
qed

lemma greedy_step:
  assumes "\<And>g t. t \<noteq> [] \<Longrightarrow> in_cls c (hd t) \<Longrightarrow> k g t = None"
  shows "first_some (\<lambda>n. k (take n s) (drop n s)) (greedy_lengths c s) =
           (if takeWhile (in_cls c) s = [] then None
            else k (takeWhile (in_cls c) s) (dropWhile (in_cls c) s))"
proof -
  let ?N = "length (takeWhile (in_cls c) s)"
  have "\<forall>n. 1 \<le> n \<and> n < ?N \<longrightarrow> k (take n s) (drop n s) = None"
    using assms drop_in_run [of _ "in_cls c" s] by blast
  then have "first_some (\<lambda>n. k (take n s) (drop n s)) (rev [1 ..< Suc ?N]) =
      (if ?N = 0 then None else k (take ?N s) (drop ?N s))"
    by (rule first_some_longest)
  then show ?thesis
    by (simp add: greedy_lengths_def takeWhile_eq_take [symmetric] dropWhile_eq_drop [symmetric])
qed


lemma in_cls_eq: "in_cls Space = is_space" "in_cls Digit = is_digit"
  by (auto simp: fun_eq_iff)

lemma space_facts:
  "is_space c \<Longrightarrow> \<not> is_digit c \<and> c \<noteq> CHR ''/'' \<and> c \<noteq> CHR ''%''"
  by (auto simp: is_space_def is_digit_def)

lemma match_slash:
  "match_seq [Once (Lit (CHR ''/''))] g t = (if t \<noteq> [] \<and> hd t = CHR ''/'' then Some g else None)"
  by (cases t) simp_all

lemma match_plus:
  "match_seq (Plus c # ps) g t = first_some (\<lambda>n. match_seq ps g (drop n t)) (greedy_lengths c t)"
  by simp

lemma match_group_plus:
  "match_seq (Group_Plus c # ps) g t =
     first_some (\<lambda>n. match_seq ps (take n t) (drop n t)) (greedy_lengths c t)"
  by simp

lemma match_percent:
  "match_seq (Once (Lit (CHR ''%'')) # ps) g t =
     (if t \<noteq> [] \<and> hd t = CHR ''%'' then match_seq ps g (tl t) else None)"
  by (cases t) simp_all

lemma match_space_slash:
  "match_seq [Plus Space, Once (Lit (CHR ''/''))] g t =
     (if takeWhile is_space t \<noteq> [] \<and> dropWhile is_space t \<noteq> [] \<and> hd (dropWhile is_space t) = CHR ''/''
      then Some g else None)"
proof -
  have "first_some (\<lambda>n. (\<lambda>_ u. match_seq [Once (Lit (CHR ''/''))] g u) (take n t) (drop n t))
          (greedy_lengths Space t) =
        (if takeWhile (in_cls Space) t = [] then None
         else match_seq [Once (Lit (CHR ''/''))] g (dropWhile (in_cls Space) t))"
  proof (rule greedy_step)
    fix g' :: string and u :: string
    assume "u \<noteq> []" "in_cls Space (hd u)"
    then show "match_seq [Once (Lit (CHR ''/''))] g u = None"
      by (cases u) (auto dest: space_facts)
  qed
  then show ?thesis
    unfolding match_plus in_cls_eq match_slash by simp
qed

lemma match_digits:
  "match_seq (Group_Plus Digit # Once (Lit (CHR ''%'')) # ps) g t =
     (if takeWhile is_digit t = [] then None
      else match_seq (Once (Lit (CHR ''%'')) # ps) (takeWhile is_digit t) (dropWhile is_digit t))"
proof -
  have "first_some (\<lambda>n. match_seq (Once (Lit (CHR ''%'')) # ps) (take n t) (drop n t))
          (greedy_lengths Digit t) =
        (if takeWhile (in_cls Digit) t = [] then None
         else match_seq (Once (Lit (CHR ''%'')) # ps) (takeWhile (in_cls Digit) t)
                (dropWhile (in_cls Digit) t))"
  proof (rule greedy_step)
    fix g' :: string and u :: string
    assume "u \<noteq> []" "in_cls Digit (hd u)"
    then show "match_seq (Once (Lit (CHR ''%'')) # ps) g' u = None"
      by (cases u) (auto dest: digit_facts)
  qed
  then show ?thesis
    unfolding match_group_plus in_cls_eq .
qed

lemma match_space_digits:
  "match_seq (Plus Space # Group_Plus Digit # Once (Lit (CHR ''%'')) # ps) g t =
     (if takeWhile is_space t = [] then None
      else match_seq (Group_Plus Digit # Once (Lit (CHR ''%'')) # ps) g (dropWhile is_space t))"
proof -
  have "first_some
          (\<lambda>n. (\<lambda>_ u. match_seq (Group_Plus Digit # Once (Lit (CHR ''%'')) # ps) g u) (take n t) (drop n t))
          (greedy_lengths Space t) =
        (if takeWhile (in_cls Space) t = [] then None
         else match_seq (Group_Plus Digit # Once (Lit (CHR ''%'')) # ps) g (dropWhile (in_cls Space) t))"
  proof (rule greedy_step)
    fix g' :: string and u :: string
    assume "u \<noteq> []" "in_cls Space (hd u)"
    then have "takeWhile is_digit u = []"
      by (cases u) (auto dest: space_facts)
    then show "match_seq (Group_Plus Digit # Once (Lit (CHR ''%'')) # ps) g u = None"
      by (simp add: match_digits del: match_seq.simps)
  qed
  then show ?thesis
    unfolding match_plus in_cls_eq .
qed

lemma match_seq_disk: "match_seq disk_pattern [] s = disk_here s"
  unfolding disk_pattern_def match_space_digits match_digits match_percent match_space_slash
  by (simp add: disk_here_def Let_def)


lemma run_split:
  assumes "list_all P ws" "rest = [] \<or> \<not> P (hd rest)"
  shows "takeWhile P (ws @ rest) = ws" "dropWhile P (ws @ rest) = rest"
proof -
  have "takeWhile P rest = []" "dropWhile P rest = rest"
    using assms(2) by (cases rest; auto)+
  then show "takeWhile P (ws @ rest) = ws" "dropWhile P (ws @ rest) = rest"
    using assms(1) by (simp_all add: list_all_iff)
qed

lemma disk_here_intro:
  assumes "starts_with_match s ds"
  shows "disk_here s = Some ds"
proof -
  from assms obtain ws ws2 tail where
    s: "s = ws @ ds @ CHR ''%'' # ws2 @ CHR ''/'' # tail" and
    ws: "ws \<noteq> []" "list_all is_space ws" and
    ds: "ds \<noteq> []" "list_all is_digit ds" and
    ws2: "ws2 \<noteq> []" "list_all is_space ws2"
    by (auto simp: starts_with_match_def blank_def)
  have d0: "\<not> is_space (hd (ds @ CHR ''%'' # ws2 @ CHR ''/'' # tail))"
    using ds by (cases ds) (auto dest: digit_facts)
  have p: "\<not> is_digit (CHR ''%'')" "\<not> is_space (CHR ''/'')"
    by (simp_all add: is_digit_def is_space_def)
  have 1: "takeWhile is_space s = ws" "dropWhile is_space s = ds @ CHR ''%'' # ws2 @ CHR ''/'' # tail"
    unfolding s using ws(2) d0 by (simp_all add: run_split)
  have 2: "takeWhile is_digit (ds @ CHR ''%'' # ws2 @ CHR ''/'' # tail) = ds"
    "dropWhile is_digit (ds @ CHR ''%'' # ws2 @ CHR ''/'' # tail) = CHR ''%'' # ws2 @ CHR ''/'' # tail"
    using ds(2) p(1) by (simp_all add: run_split)
  have 3: "takeWhile is_space (ws2 @ CHR ''/'' # tail) = ws2"
    "dropWhile is_space (ws2 @ CHR ''/'' # tail) = CHR ''/'' # tail"
    using ws2(2) p(2) by (simp_all add: run_split)
  show ?thesis
    unfolding disk_here_def Let_def 1 2 list.sel 3 using ws(1) ds(1) ws2(1) by simp
qed

lemma disk_here_elim:
  assumes "disk_here s = Some ds"
  shows "starts_with_match s ds"
proof -
  let ?ws = "takeWhile is_space s" and ?r1 = "dropWhile is_space s"
  let ?r2 = "dropWhile is_digit ?r1"
  let ?ws2 = "takeWhile is_space (tl ?r2)" and ?r4 = "dropWhile is_space (tl ?r2)"
  from assms have c: "?ws \<noteq> []" "takeWhile is_digit ?r1 \<noteq> []" "?r2 \<noteq> []" "hd ?r2 = CHR ''%''"
    "?ws2 \<noteq> []" "?r4 \<noteq> []" "hd ?r4 = CHR ''/''" and ds: "ds = takeWhile is_digit ?r1"
    by (auto simp: disk_here_def Let_def split: if_splits)
  have "s = ?ws @ ?r1" by simp
  also have "?r1 = ds @ ?r2" unfolding ds by simp
  also have "?r2 = ''%'' @ tl ?r2" using c(3,4) by (cases ?r2) auto
  also have "tl ?r2 = ?ws2 @ ?r4" by simp
  also have "?r4 = ''/'' @ tl ?r4" using c(6,7) by (cases ?r4) auto
  finally have "s = ?ws @ ds @ ''%'' @ ?ws2 @ ''/'' @ tl ?r4" .
  moreover have "blank ?ws" "blank ?ws2" "list_all is_digit ds"
    using c(1,5) ds by (auto simp: blank_def list_all_iff dest: set_takeWhileD)
  moreover have "ds \<noteq> []" using c(2) ds by simp
  ultimately show ?thesis unfolding starts_with_match_def by blast
qed

lemma match_disk_iff: "match_seq disk_pattern [] s = Some ds \<longleftrightarrow> starts_with_match s ds"
  unfolding match_seq_disk by (rule iffI [OF disk_here_elim disk_here_intro])

lemma re_search_None_iff:
  "re_search ps s = None \<longleftrightarrow> (\<forall>i \<le> length s. match_seq ps [] (drop i s) = None)"
proof (induction s)
  case Nil
  then show ?case by simp
next
  case (Cons c cs)
  have "(\<forall>i \<le> length (c # cs). match_seq ps [] (drop i (c # cs)) = None) \<longleftrightarrow>
        match_seq ps [] (c # cs) = None \<and> (\<forall>i \<le> length cs. match_seq ps [] (drop i cs) = None)"
    (is "?L \<longleftrightarrow> ?R")
  proof
    assume l: ?L
    have "match_seq ps [] (drop 0 (c # cs)) = None" using l by blast
    moreover have "match_seq ps [] (drop i cs) = None" if "i \<le> length cs" for i
      using l [rule_format, of "Suc i"] that by simp
    ultimately show ?R by simp
  next
    assume r: ?R
    show ?L
    proof (intro allI impI)
      fix i assume "i \<le> length (c # cs)"
      then show "match_seq ps [] (drop i (c # cs)) = None"
        using r by (cases i) auto
    qed
  qed
  then show ?case using Cons.IH by (auto split: option.splits)
qed

lemma re_search_Some_iff:
  "re_search ps s = Some g \<longleftrightarrow>
     (\<exists>i \<le> length s. match_seq ps [] (drop i s) = Some g
        \<and> (\<forall>j < i. match_seq ps [] (drop j s) = None))"
proof (induction s)
  case Nil
  then show ?case by simp
next
  case (Cons c cs)
  show ?case
  proof (cases "match_seq ps [] (c # cs)")
    case (Some g')
    have "(\<exists>i \<le> length (c # cs). match_seq ps [] (drop i (c # cs)) = Some g
        \<and> (\<forall>j < i. match_seq ps [] (drop j (c # cs)) = None)) \<longleftrightarrow> g' = g"
    proof
      assume "\<exists>i \<le> length (c # cs). match_seq ps [] (drop i (c # cs)) = Some g
        \<and> (\<forall>j < i. match_seq ps [] (drop j (c # cs)) = None)"
      then obtain i where i: "match_seq ps [] (drop i (c # cs)) = Some g"
        "\<forall>j < i. match_seq ps [] (drop j (c # cs)) = None" by blast
      have "i = 0"
      proof (rule ccontr)
        assume "i \<noteq> 0"
        then have "match_seq ps [] (drop 0 (c # cs)) = None" using i(2) by blast
        then show False using Some by simp
      qed
      then show "g' = g" using i(1) Some by simp
    next
      assume "g' = g"
      then have "match_seq ps [] (drop 0 (c # cs)) = Some g
        \<and> (\<forall>j < 0. match_seq ps [] (drop j (c # cs)) = None)" using Some by simp
      then show "\<exists>i \<le> length (c # cs). match_seq ps [] (drop i (c # cs)) = Some g
        \<and> (\<forall>j < i. match_seq ps [] (drop j (c # cs)) = None)" by blast
    qed
    then show ?thesis using Some by simp
  next
    case None
    have "(\<exists>i \<le> length (c # cs). match_seq ps [] (drop i (c # cs)) = Some g
        \<and> (\<forall>j < i. match_seq ps [] (drop j (c # cs)) = None)) \<longleftrightarrow>
       (\<exists>i \<le> length cs. match_seq ps [] (drop i cs) = Some g
        \<and> (\<forall>j < i. match_seq ps [] (drop j cs) = None))" (is "?L \<longleftrightarrow> ?R")
    proof
      assume ?L
      then obtain i where i: "i \<le> length (c # cs)" "match_seq ps [] (drop i (c # cs)) = Some g"
        "\<forall>j < i. match_seq ps [] (drop j (c # cs)) = None" by blast
      then obtain i' where i': "i = Suc i'" using None by (cases i) auto
      have "\<forall>j < i'. match_seq ps [] (drop j cs) = None"
      proof (intro allI impI)
        fix j assume "j < i'"
        then show "match_seq ps [] (drop j cs) = None"
          using i(3) [rule_format, of "Suc j"] i' by simp
      qed
      then show ?R using i(1,2) i' by auto
    next
      assume ?R
      then obtain i where i: "i \<le> length cs" "match_seq ps [] (drop i cs) = Some g"
        "\<forall>j < i. match_seq ps [] (drop j cs) = None" by blast
      have "\<forall>j < Suc i. match_seq ps [] (drop j (c # cs)) = None"
      proof (intro allI impI)
        fix j assume "j < Suc i"
        then show "match_seq ps [] (drop j (c # cs)) = None"
          using i(3) None by (cases j) auto
      qed
      moreover have "Suc i \<le> length (c # cs)" "match_seq ps [] (drop (Suc i) (c # cs)) = Some g"
        using i(1,2) by simp_all
      ultimately show ?L by blast
    qed
    then show ?thesis using None Cons.IH by simp
  qed
qed


lemma no_match_anywhere:
  assumes "\<forall>pre rest ds. df_out = pre @ rest \<longrightarrow> \<not> starts_with_match rest ds"
  shows "re_search disk_pattern df_out = None"
proof -
  have "match_seq disk_pattern [] (drop i df_out) = None" for i
  proof (cases "match_seq disk_pattern [] (drop i df_out)")
    case None
    then show ?thesis .
  next
    case (Some ds)
    then have "starts_with_match (drop i df_out) ds" by (simp only: match_disk_iff)
    moreover have "df_out = take i df_out @ drop i df_out" by simp
    ultimately show ?thesis using assms by blast
  qed
  then show ?thesis by (simp only: re_search_None_iff) simp
qed

lemma leftmost_match:
  assumes "df_out = pre @ rest" "starts_with_match rest ds"
    and "\<forall>pre' rest' ds'. df_out = pre' @ rest' \<and> length pre' < length pre \<longrightarrow>
           \<not> starts_with_match rest' ds'"
  shows "re_search disk_pattern df_out = Some ds"
proof -
  have here: "match_seq disk_pattern [] (drop (length pre) df_out) = Some ds"
    using assms(1,2) by (simp add: match_disk_iff del: match_seq.simps)
  have before: "match_seq disk_pattern [] (drop j df_out) = None" if "j < length pre" for j
  proof (cases "match_seq disk_pattern [] (drop j df_out)")
    case None
    then show ?thesis .
  next
    case (Some ds')
    then have "starts_with_match (drop j df_out) ds'" by (simp only: match_disk_iff)
    moreover have "df_out = take j df_out @ drop j df_out" by simp
    moreover have "length (take j df_out) < length pre"
      using that assms(1) by simp
    ultimately show ?thesis using assms(3) by blast
  qed
  have "length pre \<le> length df_out" using assms(1) by simp
  with here before show ?thesis
    unfolding re_search_Some_iff by blast
qed

lemma no_match_by_search:
  assumes "re_search disk_pattern s = None"
  shows "\<forall>pre rest ds. s = pre @ rest \<longrightarrow> \<not> starts_with_match rest ds"
proof (intro allI impI)
  fix pre rest ds
  assume "s = pre @ rest"
  then have r: "drop (length pre) s = rest" and l: "length pre \<le> length s" by simp_all
  have "match_seq disk_pattern [] (drop (length pre) s) = None"
    using assms [unfolded re_search_None_iff, rule_format, OF l] .
  then have none: "match_seq disk_pattern [] rest = None" unfolding r .
  show "\<not> starts_with_match rest ds"
  proof
    assume "starts_with_match rest ds"
    then have "match_seq disk_pattern [] rest = Some ds" by (rule match_disk_iff [THEN iffD2])
    with none show False by (simp only: option.distinct)
  qed
qed

lemma no_match_before:
  assumes "list_all (\<lambda>j. disk_here (drop j s) = None) [0 ..< n]"
  shows "\<forall>pre' rest' ds'. s = pre' @ rest' \<and> length pre' < n \<longrightarrow> \<not> starts_with_match rest' ds'"
proof (intro allI impI notI)
  fix pre' rest' ds'
  assume a: "s = pre' @ rest' \<and> length pre' < n" and m: "starts_with_match rest' ds'"
  from a have s: "s = pre' @ rest'" and lt: "length pre' < n" by (rule conjunct1, rule conjunct2)
  have "length pre' \<in> set [0 ..< n]" using lt by simp
  with assms have "disk_here (drop (length pre') s) = None"
    unfolding list_all_iff by (rule bspec)
  then have "disk_here rest' = None" unfolding s by simp
  moreover have "disk_here rest' = Some ds'" using m by (rule disk_here_intro)
  ultimately show False by simp
qed

section \<open>Disk usage\<close>

text \<open>
  Claim C8: the disk parser looks for the leftmost place where whitespace, digits, a
  percent sign, whitespace and a slash follow each other, and the field is the number
  the digits denote. When the text has no such place, the field is None. When it has
  one and none starts further left, the field is the number of its digits. The text
  \<open>... 18% /\<close> gives 18, as does the output of \<open>df -h /\<close> whose root row ends in
  \<open>18% /\<close>; an error message gives None. The conversion of the digits never raises.
\<close>

theorem disk_percentage:
  "((\<forall>pre rest ds. df_out = pre @ rest \<longrightarrow> \<not> starts_with_match rest ds) \<longrightarrow>
      parse_disk df_out m = Inr (m(''disk_root_used_pct'' \<mapsto> Null)))
   \<and> (df_out = pre @ rest \<and> starts_with_match rest ds
        \<and> (\<forall>pre' rest' ds'. df_out = pre' @ rest' \<and> length pre' < length pre \<longrightarrow>
              \<not> starts_with_match rest' ds') \<longrightarrow>
      parse_disk df_out m =
        Inr (m(''disk_root_used_pct'' \<mapsto> Num (Finite (of_nat (digits_val ds))))))
   \<and> parse_disk ''... 18% /'' m = Inr (m(''disk_root_used_pct'' \<mapsto> Num (Finite 18)))
   \<and> parse_disk df_h m = Inr (m(''disk_root_used_pct'' \<mapsto> Num (Finite 18)))
   \<and> parse_disk ''df: command not found'' m = Inr (m(''disk_root_used_pct'' \<mapsto> Null))"
proof (intro conjI impI)
  assume "\<forall>pre rest ds. df_out = pre @ rest \<longrightarrow> \<not> starts_with_match rest ds"
  then have "re_search disk_pattern df_out = None" by (rule no_match_anywhere)
  then show "parse_disk df_out m = Inr (m(''disk_root_used_pct'' \<mapsto> Null))"
    by (simp add: parse_disk_def)
next
  assume a: "df_out = pre @ rest \<and> starts_with_match rest ds
        \<and> (\<forall>pre' rest' ds'. df_out = pre' @ rest' \<and> length pre' < length pre \<longrightarrow>
              \<not> starts_with_match rest' ds')"
  then have "re_search disk_pattern df_out = Some ds"
    using leftmost_match [of df_out pre rest ds] by blast
  moreover have "ds \<noteq> []" "list_all is_digit ds"
    using a by (auto simp: starts_with_match_def)
  ultimately show "parse_disk df_out m =
        Inr (m(''disk_root_used_pct'' \<mapsto> Num (Finite (of_nat (digits_val ds)))))"
    by (simp add: parse_disk_def py_float_digits)
next
  show "parse_disk ''... 18% /'' m = Inr (m(''disk_root_used_pct'' \<mapsto> Num (Finite 18)))"
    by (simp add: parse_defs text_defs float_defs)
next
  show "parse_disk df_h m = Inr (m(''disk_root_used_pct'' \<mapsto> Num (Finite 18)))"
    by (simp add: df_h_def parse_defs text_defs float_defs)
next
  show "parse_disk ''df: command not found'' m = Inr (m(''disk_root_used_pct'' \<mapsto> Null))"
    by (simp add: parse_defs text_defs float_defs)
qed

theorem disk_percentage_witness:
  "re_search disk_pattern ''tmpfs 5% -'' = None
   \<and> parse_disk ''tmpfs 5% -'' Map.empty = Inr [''disk_root_used_pct'' \<mapsto> Null]
   \<and> df_two = (''tmpfs 5% -'' @ [CHR 0x0A] @ ''root'') @ '' 18% /''
   \<and> starts_with_match '' 18% /'' ''18''
   \<and> list_all (\<lambda>j. disk_here (drop j df_two) = None) [0 ..< 15]
   \<and> parse_disk df_two Map.empty = Inr [''disk_root_used_pct'' \<mapsto> Num (Finite 18)]"
proof -
  have a0: "re_search disk_pattern ''tmpfs 5% -'' = None"
    by (simp add: disk_pattern_def greedy_lengths_def is_space_def is_digit_def)
  then have a: "\<forall>pre rest ds. ''tmpfs 5% -'' = pre @ rest \<longrightarrow> \<not> starts_with_match rest ds"
    by (rule no_match_by_search)
  have b: "df_two = (''tmpfs 5% -'' @ [CHR 0x0A] @ ''root'') @ '' 18% /''"
    by (simp add: df_two_def)
  have "disk_here '' 18% /'' = Some ''18''"
    by (simp add: disk_here_def is_space_def is_digit_def)
  then have c: "starts_with_match '' 18% /'' ''18''" by (rule disk_here_elim)
  have d0: "list_all (\<lambda>j. disk_here (drop j df_two) = None) [0 ..< 15]"
    by (simp add: df_two_def disk_here_def is_space_def is_digit_def upt_rec)
  then have "\<forall>pre' rest' ds'. df_two = pre' @ rest' \<and> length pre' < 15 \<longrightarrow>
        \<not> starts_with_match rest' ds'"
    by (rule no_match_before)
  moreover have len: "length (''tmpfs 5% -'' @ [CHR 0x0A] @ ''root'') = 15" by simp
  ultimately have d: "\<forall>pre' rest' ds'. df_two = pre' @ rest'
          \<and> length pre' < length (''tmpfs 5% -'' @ [CHR 0x0A] @ ''root'') \<longrightarrow>
        \<not> starts_with_match rest' ds'"
    by (simp only: len)
  have v: "digits_val ''18'' = 18" by (simp add: digits_val_def digit_val_def)
  note t1 = disk_percentage [where df_out = "''tmpfs 5% -''" and m = Map.empty, THEN conjunct1]
  note t2 = disk_percentage [where df_out = df_two and m = Map.empty
      and pre = "''tmpfs 5% -'' @ [CHR 0x0A] @ ''root''" and rest = "'' 18% /''" and ds = "''18''",
      THEN conjunct2, THEN conjunct1]
  have e1: "parse_disk ''tmpfs 5% -'' Map.empty = Inr [''disk_root_used_pct'' \<mapsto> Null]"
    using t1 a by blast
  have "parse_disk df_two Map.empty =
      Inr [''disk_root_used_pct'' \<mapsto> Num (Finite (of_nat (digits_val ''18'')))]"
    using t2 b c d by blast
  then have e2: "parse_disk df_two Map.empty = Inr [''disk_root_used_pct'' \<mapsto> Num (Finite 18)]"
    unfolding v by simp
  show ?thesis by (intro conjI a0 e1 b c d0 e2)
qed

section \<open>Rounding to binary64\<close>









lemma round64_45_5: "round64 (91 / 2) = Finite (91 / 2)"
  by code_simp

lemma round64_0_0455: "round64 (91 / 2000) = Finite (3278620528725721 / 72057594037927936)"
  by code_simp

lemma round64_0_03: "round64 (3 / 100) = Finite (1080863910568919 / 36028797018963968)"
  by code_simp

section \<open>What \<open>float()\<close> rejects and what it accepts\<close>










lemma trim_id:
  assumes "s \<noteq> []" "\<not> P (hd s)" "\<not> P (last s)"
  shows "rev (dropWhile P (rev (dropWhile P s))) = s"
proof -
  have a: "dropWhile P s = s" using assms(1,2) by (simp add: dropWhile_eq_self_iff)
  have "\<not> P (hd (rev s))" using assms(1,3) by (simp add: hd_rev)
  then have "dropWhile P (rev s) = rev s" by (simp add: dropWhile_eq_self_iff)
  then show ?thesis by (simp add: a)
qed

lemma py_float_decimal:
  assumes "ip \<noteq> []" "list_all is_digit ip" "list_all is_digit fp"
  shows "py_float (ip @ CHR ''.'' # fp) = Inr (Finite (of_nat (digits_val (ip @ fp)) / 10 ^ length fp))"
proof -
  let ?s = "ip @ CHR ''.'' # fp"
  have dot: "is_ascii (CHR ''.'')" "\<not> is_c_space (CHR ''.'')" "\<not> is_digit (CHR ''.'')"
    by (simp_all add: is_ascii_def is_c_space_def is_digit_def)
  have all: "list_all is_ascii ?s" "CHR ''_'' \<notin> set ?s"
    using assms(2,3) dot(1) by (auto simp: list_all_iff dest: digit_facts)
  then have u: "drop_underscores (CHR 0x00) (float_text ?s) = Some ?s"
    by (simp add: float_text_def drop_underscores_none)
  have h: "is_digit (hd ?s)" using assms(1,2) by (cases ip) auto
  have "last ?s = (if fp = [] then CHR ''.'' else last fp)" by simp
  moreover have "fp \<noteq> [] \<Longrightarrow> is_digit (last fp)"
    using assms(3) by (simp add: list_all_iff)
  ultimately have l: "\<not> is_c_space (last ?s)"
    using dot(2) digit_facts [of "last fp"] by (cases "fp = []") simp_all
  have "\<not> is_c_space (hd ?s)" using h digit_facts by blast
  then have trim: "rev (dropWhile is_c_space (rev (dropWhile is_c_space ?s))) = ?s"
    using l by (intro trim_id) simp_all
  have sign: "take_sign ?s = (False, ?s)"
    using h assms(1) by (cases ip) (auto dest: digit_facts)
  have 1: "takeWhile is_digit ?s = ip" "dropWhile is_digit ?s = CHR ''.'' # fp"
    using assms(2) dot(3) by (simp_all add: run_split)
  have 2: "takeWhile is_digit fp = fp" "dropWhile is_digit fp = []"
    using assms(3) by (simp_all add: list_all_iff)
  have "number ?s = Some (of_nat (digits_val (ip @ fp)) / 10 ^ length fp)"
    unfolding number_def Let_def 1 using assms(1) by (simp add: 2 scale_def)
  then show ?thesis
    by (simp add: py_float_def u trim signed_value_def sign)
qed

section \<open>Temperature\<close>


lemma round64_0_03_quotient:
  "round64 (1080863910568919 / 36028797018963968000)
     = Finite (1106804644422573 / 36893488147419103232)"
  by code_simp





text \<open>
  Claim C10: the conversion is \<open>float()\<close>, not an integer parse. Every text that
  \<open>float()\<close> accepts gives the quotient of its binary64 value by 1000.0, and never None;
  every text of digits, a point and digits is accepted. \<open>45.5\<close> gives the binary64 value
  nearest to 0.0455, which is the value of the text \<open>0.0455\<close> and of \<open>45.5 / 1000.0\<close>.
  The quotient is rounded from the binary64 value of the text: \<open>0.03\<close> gives
  1106804644422573 / 2 ^ 65, one step below the value of the text \<open>0.00003\<close>.
\<close>

theorem temperature_accepts_floats:
  "(py_float temp_raw = Inr v \<longrightarrow>
      parse_temperature temp_raw m = Inr (m(''temperature_c'' \<mapsto> Num (fdiv v 1000))))
   \<and> (ip \<noteq> [] \<and> list_all is_digit ip \<and> list_all is_digit fp \<longrightarrow>
        parse_temperature (ip @ ''.'' @ fp) m =
          Inr (m(''temperature_c'' \<mapsto>
                 Num (fdiv (Finite (of_nat (digits_val (ip @ fp)) / 10 ^ length fp)) 1000))))
   \<and> py_float ''45.5'' = Inr (Finite (455 / 10))
   \<and> parse_temperature ''45.5'' m = Inr (m(''temperature_c'' \<mapsto> Num (round64 (455 / 10000))))
   \<and> round64 (455 / 10000) = Finite (3278620528725721 / 72057594037927936)
   \<and> py_float ''0.0455'' = Inr (Finite (455 / 10000))
   \<and> parse_temperature ''45.5'' m \<noteq> Inr (m(''temperature_c'' \<mapsto> Null))
   \<and> parse_temperature ''0.03'' m =
        Inr (m(''temperature_c'' \<mapsto> Num (Finite (1106804644422573 / 36893488147419103232))))"
proof -
  have a: "py_float temp_raw = Inr v \<longrightarrow>
      parse_temperature temp_raw m = Inr (m(''temperature_c'' \<mapsto> Num (fdiv v 1000)))"
    by (simp add: parse_temperature_def)
  have a': "ip \<noteq> [] \<and> list_all is_digit ip \<and> list_all is_digit fp \<longrightarrow>
        parse_temperature (ip @ ''.'' @ fp) m =
          Inr (m(''temperature_c'' \<mapsto>
                 Num (fdiv (Finite (of_nat (digits_val (ip @ fp)) / 10 ^ length fp)) 1000)))"
    by (simp add: parse_temperature_def py_float_decimal)
  have b: "py_float ''45.5'' = Inr (Finite (455 / 10))"
    by (simp add: float_defs)
  have c: "parse_temperature ''45.5'' m = Inr (m(''temperature_c'' \<mapsto> Num (round64 (455 / 10000))))"
    by (simp add: parse_temperature_def b fdiv_def round64_45_5)
  have r: "round64 (455 / 10000) = Finite (3278620528725721 / 72057594037927936)"
    using round64_0_0455 by simp
  have b': "py_float ''0.0455'' = Inr (Finite (455 / 10000))"
    by (simp add: float_defs)
  have d: "parse_temperature ''45.5'' m \<noteq> Inr (m(''temperature_c'' \<mapsto> Null))"
    unfolding c r by (auto dest: fun_upd_eqD)
  have p: "py_float ''0.03'' = Inr (Finite (3 / 100))"
    by (simp add: float_defs)
  have e: "parse_temperature ''0.03'' m =
        Inr (m(''temperature_c'' \<mapsto> Num (Finite (1106804644422573 / 36893488147419103232))))"
    by (simp add: parse_temperature_def p fdiv_def round64_0_03 round64_0_03_quotient)
  show ?thesis by (intro conjI a a' b c r b' d e)
qed

theorem temperature_accepts_floats_witness:
  "py_float ''1.5e3'' = Inr (Finite 1500)
   \<and> parse_temperature ''1.5e3'' Map.empty = Inr [''temperature_c'' \<mapsto> Num (fdiv (Finite 1500) 1000)]
   \<and> ''0'' \<noteq> [] \<and> list_all is_digit ''0'' \<and> list_all is_digit ''03''
   \<and> parse_temperature (''0'' @ ''.'' @ ''03'') Map.empty =
        Inr [''temperature_c'' \<mapsto> Num (fdiv (Finite (of_nat (digits_val (''0'' @ ''03'')) / 10 ^ length ''03'')) 1000)]"
proof -
  have h: "py_float ''1.5e3'' = Inr (Finite 1500)" by (simp add: float_defs)
  have k1: "''0'' \<noteq> []" by simp
  have k2: "list_all is_digit ''0''" "list_all is_digit ''03''" by (simp_all add: is_digit_def)
  note t1 = temperature_accepts_floats [where temp_raw = "''1.5e3''" and v = "Finite 1500"
      and m = Map.empty, THEN conjunct1]
  note t2 = temperature_accepts_floats [where ip = "''0''" and fp = "''03''" and m = Map.empty,
      THEN conjunct2, THEN conjunct1]
  have e1: "parse_temperature ''1.5e3'' Map.empty
              = Inr [''temperature_c'' \<mapsto> Num (fdiv (Finite 1500) 1000)]"
    using t1 h by blast
  have e2: "parse_temperature (''0'' @ ''.'' @ ''03'') Map.empty =
        Inr [''temperature_c'' \<mapsto> Num (fdiv (Finite (of_nat (digits_val (''0'' @ ''03'')) / 10 ^ length ''03'')) 1000)]"
    using t2 k1 k2 by blast
  show ?thesis by (intro conjI h e1 k1 k2 e2)
qed

section \<open>A cycle with a host that cannot be reached\<close>

text \<open>
  Claim C4 says that a cycle in which exactly one host fails to connect and all others
  succeed prints one failure-shaped snapshot and success-shaped ones for the rest. Here
  the first of two hosts fails to connect and the second connects and runs all four
  commands, \<open>free -m\<close> printing the bare label \<open>Mem:\<close>: the exception of the memory parser
  makes the second snapshot failure-shaped too. The cycle prints two lines in registry
  order, both failure-shaped and none success-shaped.
\<close>

theorem second_failure_by_parsing:
  "connect (host ''pi1'') (first_down 0) = Inl (OtherError ''timed out'')
   \<and> connect (host ''pi2'') (first_down 1) = Inr (replies [] ''Mem:'' [] [])
   \<and> poll_cycle [host ''pi1'', host ''pi2''] first_down =
       [Host_Line (JStr ''pi1'') (JStr ''pi1'') [''error'' \<mapsto> Description (OtherError ''timed out'')],
        Host_Line (JStr ''pi2'') (JStr ''pi2'') [''error'' \<mapsto> Description IndexError]]
   \<and> length (filter (\<lambda>l. failure_shape (snapshot_of l)) (poll_cycle [host ''pi1'', host ''pi2''] first_down)) = 2
   \<and> length (filter (\<lambda>l. success_shape (snapshot_of l)) (poll_cycle [host ''pi1'', host ''pi2''] first_down)) = 0"
proof -
  have c0: "connect (host ''pi1'') (first_down 0) = Inl (OtherError ''timed out'')"
    by (simp add: connect_def first_down_def unreachable_def)
  have c1: "connect (host ''pi2'') (first_down 1) = Inr (replies [] ''Mem:'' [] [])"
    by (simp add: connect_def first_down_def reachable_def)
  have g0: "fst (get_metrics (host ''pi1'') (first_down 0)) = [''error'' \<mapsto> Description (OtherError ''timed out'')]"
    using c0 by (rule get_metrics_connect_failure)
  have g1: "fst (get_metrics (host ''pi2'') (first_down (Suc 0))) = [''error'' \<mapsto> Description IndexError]"
    by (simp add: first_down_def poll_defs parse_defs text_defs float_defs)
  have p: "poll_cycle [host ''pi1'', host ''pi2''] first_down =
       [Host_Line (JStr ''pi1'') (JStr ''pi1'') [''error'' \<mapsto> Description (OtherError ''timed out'')],
        Host_Line (JStr ''pi2'') (JStr ''pi2'') [''error'' \<mapsto> Description IndexError]]"
    by (simp add: poll_cycle_def g0 g1) (simp add: host_def monitor_of_def init_monitor_def dict_get_def)
  have f: "length (filter (\<lambda>l. failure_shape (snapshot_of l)) (poll_cycle [host ''pi1'', host ''pi2''] first_down)) = 2"
    unfolding p by (simp add: failure_shape_def)
  have s: "length (filter (\<lambda>l. success_shape (snapshot_of l)) (poll_cycle [host ''pi1'', host ''pi2''] first_down)) = 0"
    unfolding p by (simp add: success_shape_def metric_keys_def)
  show ?thesis by (intro conjI c0 c1 p f s)
qed

end
